theory Spec2Isabelle
  imports Main "HOL-Library.Word" "HOL-Library.Sublist"
begin

section \<open>Lyrics resolution of the lyricbar plugin (src/utils.cpp)\<close>

text \<open>
  A \<open>std::string\<close> is a list of bytes (\<open>string\<close>). A \<open>Glib::ustring\<close> is read by the
  code character by character (iteration, \<open>rbegin\<close>, \<open>size\<close>, \<open>resize\<close> all count
  Unicode code points), so it is a list of \<open>gunichar\<close>, the 32-bit code point type.
\<close>

type_synonym gunichar = "32 word"
type_synonym ustring = "gunichar list"

subsection \<open>Cache file names\<close>

text \<open>\<open>std::replace(first, last, old, new)\<close>: every element equal to \<open>old\<close> becomes \<open>new\<close>.\<close>

definition replace_char :: "char \<Rightarrow> char \<Rightarrow> string \<Rightarrow> string" where
  "replace_char old new s = map (\<lambda>c. if c = old then new else c) s"

text \<open>
  \<open>cached_filename\<close>; the process-wide \<open>lyrics_dir\<close> (computed from the environment at
  load time) is the first argument.
\<close>

definition cached_filename :: "string \<Rightarrow> string \<Rightarrow> string \<Rightarrow> string" where
  "cached_filename lyrics_dir artist title =
     (let artist' = replace_char CHR ''/'' CHR ''_'' artist;
          title' = replace_char CHR ''/'' CHR ''_'' title
      in lyrics_dir @ artist' @ CHR ''-'' # title')"

subsection \<open>Text normalisation\<close>

text \<open>
  \<open>alphadigitize\<close>: the loop appends each character that \<open>g_unichar_isalpha\<close> or
  \<open>g_unichar_isdigit\<close> accepts to \<open>res\<close>, and \<open>res\<close> replaces the argument. The two GLib
  predicates are parameters.
\<close>

definition alphadigitize ::
  "(gunichar \<Rightarrow> bool) \<Rightarrow> (gunichar \<Rightarrow> bool) \<Rightarrow> ustring \<Rightarrow> ustring" where
  "alphadigitize isalpha isdigit s =
     foldl (\<lambda>res c. if isalpha c \<or> isdigit c then res @ [c] else res) [] s"

subsection \<open>Outcomes and the world outside\<close>

text \<open>
  How a call ends: it returns a value, it throws (\<open>std::runtime_error\<close>, the only
  exception the file throws itself and does not catch), or a failed \<open>assert\<close> aborts
  the process.
\<close>

datatype 'a outcome = Ret 'a | Throw | Abort

text \<open>
  One call of \<open>g_input_stream_read\<close>: it stores some bytes in the buffer and returns
  their number, or it returns -1 on an error. A body stream is the list of the results
  of the successive calls; past its end every call returns 0 (end of file).
\<close>

datatype read = Read string | ReadErr

text \<open>
  What \<open>soup_session_send\<close> leaves behind: the input stream (none when the request
  failed) and the status code of the message.
\<close>

record response =
  stream :: "read list option"
  status_code :: nat

subsection \<open>Fetching a document\<close>

definition MAX_FILE_SIZE :: nat where
  "MAX_FILE_SIZE = 2 ^ 20"

text \<open>
  The read loop of \<open>fetch_file_as_chrome\<close> with \<open>res\<close> as accumulator. A read of no
  bytes and the end of the stream both give \<open>nbytes = 0\<close>. On a negative \<open>nbytes\<close>
  the \<open>assert\<close> fails; compiled with \<open>NDEBUG\<close> (first argument) it is absent and the
  bytes read so far are returned.
\<close>

fun read_body :: "bool \<Rightarrow> read list \<Rightarrow> string \<Rightarrow> string option outcome" where
  "read_body ndebug [] res = Ret (Some res)"
| "read_body ndebug (Read buf # rs) res =
     (if 0 < length buf then
        (if length res + length buf > MAX_FILE_SIZE then Throw
         else read_body ndebug rs (res @ buf))
      else Ret (Some res))"
| "read_body ndebug (ReadErr # rs) res = (if ndebug then Ret (Some res) else Abort)"

definition fetch_file_as_chrome :: "bool \<Rightarrow> (string \<Rightarrow> response) \<Rightarrow> string \<Rightarrow> string option outcome" where
  "fetch_file_as_chrome ndebug soup_session_send uri =
     (let msg = soup_session_send uri in
      case stream msg of
        None \<Rightarrow> Ret None
      | Some rs \<Rightarrow>
          if status_code msg div 100 \<noteq> 2 then Ret None
          else read_body ndebug rs [])"

text \<open>The bytes a stream delivers before its first read of no bytes, error or end.\<close>

fun delivered :: "read list \<Rightarrow> string" where
  "delivered [] = []"
| "delivered (Read buf # rs) = (if buf = [] then [] else buf @ delivered rs)"
| "delivered (ReadErr # rs) = []"

subsection \<open>Regular expressions\<close>

text \<open>
  The four \<open>std::regex\<close> objects of the file use the default ECMAScript grammar, which
  the library matches by backtracking: the first match in priority order wins. They are
  sequences of the following atoms: a literal character, \<open>.\<close> (any character but a
  line terminator), a greedy or a lazy star over a character class, an optional
  character, and the parenthesis of a capture group (\<open>Mark\<close>, at its opening and at
  its closing).
\<close>

datatype atom = Lit char | Dot | StarG "char \<Rightarrow> bool" | StarL "char \<Rightarrow> bool" | Opt char | Mark

text \<open>The class \<open>\s\<close> on bytes (\<open>isspace\<close> of the C locale).\<close>

definition isspace :: "char \<Rightarrow> bool" where
  "isspace c \<longleftrightarrow> c \<in> set [CHR '' '', CHR 0x09, CHR 0x0A, CHR 0x0B, CHR 0x0C, CHR 0x0D]"

definition line_terminator :: "char \<Rightarrow> bool" where
  "line_terminator c \<longleftrightarrow> c = CHR 0x0A \<or> c = CHR 0x0D"

text \<open>
  \<open>rmatch r s\<close> matches \<open>r\<close> at the start of \<open>s\<close>. A match gives the input that was left
  at each \<open>Mark\<close> and the input left after the match.
\<close>

fun rmatch :: "atom list \<Rightarrow> string \<Rightarrow> (string list \<times> string) option" where
  "rmatch [] s = Some ([], s)"
| "rmatch (Lit c # as) [] = None"
| "rmatch (Lit c # as) (x # xs) = (if x = c then rmatch as xs else None)"
| "rmatch (Dot # as) [] = None"
| "rmatch (Dot # as) (x # xs) = (if line_terminator x then None else rmatch as xs)"
| "rmatch (StarG P # as) [] = rmatch as []"
| "rmatch (StarG P # as) (x # xs) =
     (if P x then
        (case rmatch (StarG P # as) xs of Some m \<Rightarrow> Some m | None \<Rightarrow> rmatch as (x # xs))
      else rmatch as (x # xs))"
| "rmatch (StarL P # as) [] = rmatch as []"
| "rmatch (StarL P # as) (x # xs) =
     (case rmatch as (x # xs) of
        Some m \<Rightarrow> Some m
      | None \<Rightarrow> if P x then rmatch (StarL P # as) xs else None)"
| "rmatch (Opt c # as) [] = rmatch as []"
| "rmatch (Opt c # as) (x # xs) =
     (if x = c then
        (case rmatch as xs of Some m \<Rightarrow> Some m | None \<Rightarrow> rmatch as (x # xs))
      else rmatch as (x # xs))"
| "rmatch (Mark # as) s = map_option (\<lambda>(ms, rest). (s # ms, rest)) (rmatch as s)"

text \<open>\<open>std::regex_search\<close>: the match at the leftmost position that has one.\<close>

fun regex_search :: "atom list \<Rightarrow> string \<Rightarrow> (string list \<times> string) option" where
  "regex_search r [] = rmatch r []"
| "regex_search r (x # xs) =
     (case rmatch r (x # xs) of Some m \<Rightarrow> Some m | None \<Rightarrow> regex_search r xs)"

text \<open>
  \<open>match.size()\<close>: 0 after a failed search, else one more than the number of capture
  groups. \<open>match[1]\<close>: the input between the first two marks.
\<close>

definition match_size :: "(string list \<times> string) option \<Rightarrow> nat" where
  "match_size m = (case m of None \<Rightarrow> 0 | Some (ms, rest) \<Rightarrow> 1 + length ms div 2)"

definition sub_match1 :: "(string list \<times> string) option \<Rightarrow> string" where
  "sub_match1 m =
     (case m of
        Some (a # b # ms, rest) \<Rightarrow> take (length a - length b) a
      | _ \<Rightarrow> [])"

text \<open>
  \<open>std::regex_replace\<close> with a format that has no \<open>$\<close>: every match, found from left to
  right, each search starting where the previous match ended, is replaced by the format;
  the rest is copied. After an empty match the search moves on by one character.
\<close>

function regex_replace :: "atom list \<Rightarrow> string \<Rightarrow> string \<Rightarrow> string" where
  "regex_replace r fmt [] = (case rmatch r [] of Some m \<Rightarrow> fmt | None \<Rightarrow> [])"
| "regex_replace r fmt (x # xs) =
     (case rmatch r (x # xs) of
        None \<Rightarrow> x # regex_replace r fmt xs
      | Some (ms, rest) \<Rightarrow>
          if length rest \<le> length xs then fmt @ regex_replace r fmt rest
          else fmt @ x # regex_replace r fmt xs)"
  by pat_completeness auto
termination
  by (relation "measure (\<lambda>(r, fmt, s). length s)") auto

definition lit :: "string \<Rightarrow> atom list" where
  "lit s = map Lit s"

text \<open>\<^verbatim>\<open><div>\s*<!--\s*Usage of azlyrics.com content[^]*?-->\s*([^]*?)\s*</div>\<close>\<close>

definition lyrics_expr :: "atom list" where
  "lyrics_expr =
     lit ''<div>'' @ [StarG isspace] @ lit ''<!--'' @ [StarG isspace] @
     lit ''Usage of azlyrics'' @ [Dot] @ lit ''com content'' @ [StarL (\<lambda>c. True)] @
     lit ''-->'' @ [StarG isspace, Mark, StarL (\<lambda>c. True), Mark, StarG isspace] @
     lit ''</div>''"

text \<open>\<^verbatim>\<open><br\s*/?\s*>\<close>\<close>

definition br_expr :: "atom list" where
  "br_expr = lit ''<br'' @ [StarG isspace, Opt CHR ''/'', StarG isspace] @ lit ''>''"

text \<open>\<^verbatim>\<open><[^>]*>\<close>\<close>

definition tag_expr :: "atom list" where
  "tag_expr = lit ''<'' @ [StarG (\<lambda>c. c \<noteq> CHR ''>'')] @ lit ''>''"

text \<open>\<^verbatim>\<open>&quot;\<close>\<close>

definition quot_expr :: "atom list" where
  "quot_expr = lit ''&quot;''"

subsection \<open>Extracting and cleaning the lyrics of a document\<close>

text \<open>
  The cleaning of \<open>download_lyrics_from_azlyrics\<close>, from the assignment of
  \<open>match[1]\<close> to \<open>lyrics\<close> up to the \<open>return\<close>: the three replacements, the test for
  an empty text, and the newline that is added after a text that does not end with one.
\<close>

definition clean_lyrics :: "string \<Rightarrow> string option" where
  "clean_lyrics m1 =
     (let lyrics = regex_replace br_expr [] m1;
          lyrics = regex_replace tag_expr [] lyrics;
          lyrics = regex_replace quot_expr [CHR 0x22] lyrics
      in if lyrics = [] then None
         else if last lyrics \<noteq> CHR 0x0A then Some (lyrics @ [CHR 0x0A])
         else Some lyrics)"

text \<open>The search for the lyrics region in the fetched document, and its cleaning.\<close>

definition extract_lyrics :: "string \<Rightarrow> string option" where
  "extract_lyrics doc =
     (let m = regex_search lyrics_expr doc in
      if match_size m < 2 then None
      else clean_lyrics (sub_match1 m))"

subsection \<open>Tracks, the display, the environment\<close>

text \<open>
  A track is known to the code through \<open>pl_find_meta\<close> only: a map from metadata keys to
  values (\<open>None\<close> is the null pointer).
\<close>

type_synonym track = "string \<Rightarrow> string option"

text \<open>
  What \<open>set_lyrics\<close> is given: lyrics, or a message (the argument of the gettext macro).
\<close>

datatype display = Lyrics ustring | Message string

text \<open>The calls that leave the file, in the order in which they are made.\<close>

datatype event =
    FindMeta string
  | ConfGetStr string
  | TfCompile string
  | TfEval string
  | SpawnSync string
  | HttpGet string
  | FileGetContents string
  | OfstreamOpen string
  | SetLyrics display

text \<open>
  The functions of the host, of GLib and of libsoup that the file calls, as parameters:
  \<^item> \<open>conf_get_str\<close>: the C string that \<open>conf_get_str\<close> leaves in the buffer (empty when
    the option is unset);
  \<^item> \<open>tf_compile\<close>: the compiled code, \<open>None\<close> for the null pointer;
  \<^item> \<open>tf_eval\<close>: the returned length and the buffer;
  \<^item> \<open>spawn_command_line_sync\<close>: the captured standard output and the exit status,
    \<open>None\<close> when it throws a \<open>Glib::Error\<close>;
  \<^item> \<open>validate\<close>: \<open>ustring::validate\<close>, on the bytes;
  \<^item> \<open>ustring_of\<close>, \<open>raw\<close>: the characters of a byte string, the bytes of a \<open>ustring\<close>;
  \<^item> \<open>lowercase\<close>: \<open>ustring::lowercase\<close>;
  \<^item> \<open>uri_escape_string\<close>: with no reserved characters allowed and no UTF-8 allowed;
  \<^item> \<open>soup_session_send\<close>: the answer to a GET of the URI;
  \<^item> \<open>ofstream_opens\<close>: whether the file can be opened for writing;
  \<^item> \<open>ndebug\<close>: whether the file is compiled with \<open>NDEBUG\<close>.
\<close>

record env =
  ndebug :: bool
  lyrics_dir :: string
  conf_get_str :: "string \<Rightarrow> string"
  tf_compile :: "string \<Rightarrow> string option"
  tf_eval :: "track \<Rightarrow> string \<Rightarrow> int \<times> string"
  spawn_command_line_sync :: "string \<Rightarrow> (string \<times> int) option"
  validate :: "string \<Rightarrow> bool"
  ustring_of :: "string \<Rightarrow> ustring"
  raw :: "ustring \<Rightarrow> string"
  lowercase :: "ustring \<Rightarrow> ustring"
  g_unichar_isalpha :: "gunichar \<Rightarrow> bool"
  g_unichar_isdigit :: "gunichar \<Rightarrow> bool"
  uri_escape_string :: "string \<Rightarrow> string"
  soup_session_send :: "string \<Rightarrow> response"
  ofstream_opens :: "string \<Rightarrow> bool"

text \<open>The files of the cache directory: a map from file names to contents.\<close>

type_synonym files = "string \<Rightarrow> string option"

subsection \<open>The cache\<close>

text \<open>\<open>load_cached_lyrics\<close>: \<open>file_get_contents\<close> throws a \<open>FileError\<close>, caught here, when
  the file cannot be read.\<close>

definition load_cached_lyrics :: "env \<Rightarrow> files \<Rightarrow> string \<Rightarrow> string \<Rightarrow> event list \<times> ustring option" where
  "load_cached_lyrics e fs artist title =
     (let filename = cached_filename (lyrics_dir e) artist title in
      ([FileGetContents filename],
       case fs filename of
         Some contents \<Rightarrow> Some (ustring_of e contents)
       | None \<Rightarrow> None))"

definition save_cached_lyrics ::
  "env \<Rightarrow> files \<Rightarrow> string \<Rightarrow> string \<Rightarrow> string \<Rightarrow> event list \<times> files \<times> bool" where
  "save_cached_lyrics e fs artist title lyrics =
     (let filename = cached_filename (lyrics_dir e) artist title in
      if \<not> ofstream_opens e filename then ([OfstreamOpen filename], fs, False)
      else ([OfstreamOpen filename], fs(filename \<mapsto> lyrics), True))"

subsection \<open>Lyrics from the metadata\<close>

definition get_lyrics_from_metadata :: "env \<Rightarrow> track \<Rightarrow> event list \<times> ustring option" where
  "get_lyrics_from_metadata e track =
     (case track ''unsynced lyrics'' of
        Some lyrics \<Rightarrow> ([FindMeta ''unsynced lyrics''], Some (ustring_of e lyrics))
      | None \<Rightarrow>
         (case track ''UNSYNCEDLYRICS'' of
            Some lyrics \<Rightarrow>
              ([FindMeta ''unsynced lyrics'', FindMeta ''UNSYNCEDLYRICS''],
               Some (ustring_of e lyrics))
          | None \<Rightarrow>
             ([FindMeta ''unsynced lyrics'', FindMeta ''UNSYNCEDLYRICS'', FindMeta ''lyrics''],
              case track ''lyrics'' of
                Some lyrics \<Rightarrow> Some (ustring_of e lyrics)
              | None \<Rightarrow> None)))"

subsection \<open>Lyrics from the script\<close>

text \<open>\<open>std::string::resize\<close>: cut, or filled up with zero bytes.\<close>

definition resize :: "nat \<Rightarrow> string \<Rightarrow> string" where
  "resize n s = take n s @ replicate (n - length s) (CHR 0x00)"

definition get_lyrics_from_script :: "env \<Rightarrow> track \<Rightarrow> event list \<times> ustring option outcome" where
  "get_lyrics_from_script e track =
     (let buf = conf_get_str e ''lyricbar.customcmd'';
          ev = [ConfGetStr ''lyricbar.customcmd'']
      in if buf = [] then (ev, Ret None)
      else
        (case tf_compile e buf of
           None \<Rightarrow> (ev @ [TfCompile buf], Ret None)
         | Some tf_code \<Rightarrow>
            (let ev = ev @ [TfCompile buf, TfEval tf_code];
                 (command_len, buf) = tf_eval e track tf_code
             in if command_len < 0 then (ev, Ret None)
             else
               (let buf = resize (nat command_len) buf;
                    ev = ev @ [SpawnSync buf]
                in case spawn_command_line_sync e buf of
                     None \<Rightarrow> (ev, Ret None)
                   | Some (script_output, exit_status) \<Rightarrow>
                       if script_output = [] \<or> exit_status \<noteq> 0 then (ev, Ret None)
                       else if \<not> validate e script_output then (ev, Ret None)
                       else (ev, Ret (Some (ustring_of e script_output)))))))"

subsection \<open>Lyrics from the web\<close>

definition AZL_FMT :: string where
  "AZL_FMT = ''https://www.azlyrics.com/lyrics/%1/%2.html''"

text \<open>
  \<open>ustring::compose\<close>: \<open>%%\<close> is a percent sign, \<open>%1\<close> to \<open>%9\<close> are the arguments (when
  there are that many); any other substitution is copied literally.
\<close>

definition digit_value :: "char \<Rightarrow> nat option" where
  "digit_value c =
     (let n = (of_char c :: nat) in
      if 0x30 \<le> n \<and> n \<le> 0x39 then Some (n - 0x30) else None)"

fun compose :: "string \<Rightarrow> string list \<Rightarrow> string" where
  "compose [] args = []"
| "compose [c] args = [c]"
| "compose (c # d # cs) args =
     (if c \<noteq> CHR ''%'' then c # compose (d # cs) args
      else if d = CHR ''%'' then CHR ''%'' # compose cs args
      else
        (case digit_value d of
           Some (Suc i) \<Rightarrow>
             if i < length args then (args ! i) @ compose cs args
             else c # d # compose cs args
         | _ \<Rightarrow> c # d # compose cs args))"

text \<open>
  The inner loop of the retry: trailing characters are dropped until the title is empty
  or ends with one of \<open>( ) [ ]\<close>.
\<close>

function drop_to_bracket :: "ustring \<Rightarrow> ustring" where
  "drop_to_bracket title =
     (if title \<noteq> [] \<and>
         last title \<noteq> 0x28 \<and> last title \<noteq> 0x29 \<and>
         last title \<noteq> 0x5B \<and> last title \<noteq> 0x5D
      then drop_to_bracket (butlast title)
      else title)"
  by pat_completeness auto
termination
  by (relation "measure length") auto

declare drop_to_bracket.simps [simp del]

text \<open>The URL of one attempt, from the normalised artist and the current title.\<close>

definition api_url :: "env \<Rightarrow> ustring \<Rightarrow> ustring \<Rightarrow> string" where
  "api_url e artist title =
     (let norm_title = alphadigitize (g_unichar_isalpha e) (g_unichar_isdigit e) title in
      compose AZL_FMT
        [uri_escape_string e (raw e artist), uri_escape_string e (raw e norm_title)])"

text \<open>
  The retry loop of \<open>download_lyrics_from_azlyrics\<close>. It ends with the fetched document
  (\<open>break\<close>), with the empty option (\<open>return {}\<close>), or with what the fetch raised. The
  first component lists the fetches.
\<close>

function retry_loop :: "env \<Rightarrow> ustring \<Rightarrow> ustring \<Rightarrow> event list \<times> string option outcome" where
  "retry_loop e artist title =
     (let url = api_url e artist title in
      case fetch_file_as_chrome (ndebug e) (soup_session_send e) url of
        Throw \<Rightarrow> ([HttpGet url], Throw)
      | Abort \<Rightarrow> ([HttpGet url], Abort)
      | Ret (Some doc) \<Rightarrow> ([HttpGet url], Ret (Some doc))
      | Ret None \<Rightarrow>
          (let title' = drop_to_bracket title in
           if title' = [] then ([HttpGet url], Ret None)
           else
             (let (ev, r) = retry_loop e artist (butlast title')
              in (HttpGet url # ev, r))))"
  by pat_completeness auto
termination
proof (relation "measure (\<lambda>(e, artist, title). length title)")
  show "wf (measure (\<lambda>(e, artist, title). length title))"
    by simp
next
  fix e :: env and artist title :: ustring and url x2 title'
  assume nonempty: "title' \<noteq> []" and t: "title' = drop_to_bracket title"
  have "length (drop_to_bracket title) \<le> length title"
  proof (induction title rule: drop_to_bracket.induct)
    case (1 title)
    show ?case
    proof (cases "title \<noteq> [] \<and> last title \<noteq> 0x28 \<and> last title \<noteq> 0x29 \<and>
                  last title \<noteq> 0x5B \<and> last title \<noteq> 0x5D")
      case True
      with 1 have "length (drop_to_bracket (butlast title)) \<le> length (butlast title)"
        by simp
      with True show ?thesis
        by (subst drop_to_bracket.simps) simp
    next
      case False
      then have "drop_to_bracket title = title"
        by (subst drop_to_bracket.simps) (simp only: if_False)
      then show ?thesis
        by simp
    qed
  qed
  moreover from nonempty have "length (butlast title') < length title'"
    by (cases title' rule: rev_cases) simp_all
  ultimately show "((e, artist, butlast title'), (e, artist, title))
      \<in> measure (\<lambda>(e, artist, title). length title)"
    using t by simp
qed

declare retry_loop.simps [simp del]

definition download_lyrics_from_azlyrics ::
  "env \<Rightarrow> track \<Rightarrow> event list \<times> ustring option outcome" where
  "download_lyrics_from_azlyrics e track =
     (let artist_raw = track ''artist'';
          title_raw = track ''title'';
          ev = [FindMeta ''artist'', FindMeta ''title'']
      in case (artist_raw, title_raw) of
           (Some a, Some t) \<Rightarrow>
             (let artist = lowercase e (ustring_of e a);
                  title = lowercase e (ustring_of e t);
                  artist = alphadigitize (g_unichar_isalpha e) (g_unichar_isdigit e) artist
              in case retry_loop e artist title of
                   (ev', Throw) \<Rightarrow> (ev @ ev', Throw)
                 | (ev', Abort) \<Rightarrow> (ev @ ev', Abort)
                 | (ev', Ret None) \<Rightarrow> (ev @ ev', Ret None)
                 | (ev', Ret (Some doc)) \<Rightarrow>
                     (ev @ ev',
                      Ret (case extract_lyrics doc of
                             None \<Rightarrow> None
                           | Some lyrics \<Rightarrow> Some (ustring_of e lyrics))))
         | _ \<Rightarrow> (ev, Ret None))"

subsection \<open>The orchestrator\<close>

type_synonym provider = "env \<Rightarrow> track \<Rightarrow> event list \<times> ustring option outcome"

definition providers :: "provider list" where
  "providers = [get_lyrics_from_script, download_lyrics_from_azlyrics]"

text \<open>
  The loop over the providers in \<open>update_lyrics\<close>. \<open>Ret True\<close>: a provider gave lyrics and
  the function returned from inside the loop. \<open>Ret False\<close>: the loop ran to its end. What
  a provider throws is not caught.
\<close>

fun try_providers ::
  "provider list \<Rightarrow> env \<Rightarrow> track \<Rightarrow> files \<Rightarrow> string \<Rightarrow> string \<Rightarrow> event list \<times> files \<times> bool outcome" where
  "try_providers [] e track fs artist title = ([], fs, Ret False)"
| "try_providers (f # rest) e track fs artist title =
     (case f e track of
        (ev, Throw) \<Rightarrow> (ev, fs, Throw)
      | (ev, Abort) \<Rightarrow> (ev, fs, Abort)
      | (ev, Ret (Some lyrics)) \<Rightarrow>
          (let (ev', fs', saved) = save_cached_lyrics e fs artist title (raw e lyrics)
           in (ev @ [SetLyrics (Lyrics lyrics)] @ ev', fs', Ret True))
      | (ev, Ret None) \<Rightarrow>
          (let (ev', fs', r) = try_providers rest e track fs artist title
           in (ev @ ev', fs', r)))"

definition update_lyrics :: "env \<Rightarrow> track \<Rightarrow> files \<Rightarrow> event list \<times> files \<times> unit outcome" where
  "update_lyrics e track fs =
     (case get_lyrics_from_metadata e track of
        (ev, Some lyrics) \<Rightarrow> (ev @ [SetLyrics (Lyrics lyrics)], fs, Ret ())
      | (ev, None) \<Rightarrow>
         (let artist = track ''artist'';
              title = track ''title'';
              ev = ev @ [FindMeta ''artist'', FindMeta ''title'']
          in case (artist, title) of
               (Some a, Some t) \<Rightarrow>
                 (case load_cached_lyrics e fs a t of
                    (ev', Some lyrics) \<Rightarrow> (ev @ ev' @ [SetLyrics (Lyrics lyrics)], fs, Ret ())
                  | (ev', None) \<Rightarrow>
                     (let ev = ev @ ev' @ [SetLyrics (Message ''Loading...'')] in
                      case try_providers providers e track fs a t of
                        (ev', fs', Throw) \<Rightarrow> (ev @ ev', fs', Throw)
                      | (ev', fs', Abort) \<Rightarrow> (ev @ ev', fs', Abort)
                      | (ev', fs', Ret True) \<Rightarrow> (ev @ ev', fs', Ret ())
                      | (ev', fs', Ret False) \<Rightarrow>
                          (ev @ ev' @ [SetLyrics (Message ''Lyrics not found'')], fs', Ret ())))
             | _ \<Rightarrow> (ev @ [SetLyrics (Message ''Lyrics not found'')], fs, Ret ())))"

subsection \<open>Vocabulary of the statements\<close>

text \<open>The four characters at which the retry loop cuts a title.\<close>

definition bracket :: "gunichar \<Rightarrow> bool" where
  "bracket c \<longleftrightarrow> c = 0x28 \<or> c = 0x29 \<or> c = 0x5B \<or> c = 0x5D"

text \<open>A text has a tag when a \<open><\<close> in it is followed, anywhere later, by a \<open>>\<close>.\<close>

fun has_tag :: "string \<Rightarrow> bool" where
  "has_tag [] = False"
| "has_tag (c # cs) = (c = CHR ''<'' \<and> CHR ''>'' \<in> set cs \<or> has_tag cs)"

text \<open>The text after the three replacements of the cleaning.\<close>

definition cleaned :: "string \<Rightarrow> string" where
  "cleaned m1 =
     regex_replace quot_expr [CHR 0x22] (regex_replace tag_expr [] (regex_replace br_expr [] m1))"


text \<open>A fetch of the URI by this environment.\<close>

abbreviation fetch :: "env \<Rightarrow> string \<Rightarrow> string option outcome" where
  "fetch e uri \<equiv> fetch_file_as_chrome (ndebug e) (soup_session_send e) uri"

subsection \<open>Example environments\<close>

text \<open>
  An environment for texts in ASCII: a character is its byte, and the GLib functions are
  their restrictions to ASCII. No script is configured, and every file can be written.
  The answers of the web server are the parameter.
\<close>

definition ascii_ustring_of :: "string \<Rightarrow> ustring" where
  "ascii_ustring_of s = map (\<lambda>c. of_nat (of_char c)) s"

definition ascii_raw :: "ustring \<Rightarrow> string" where
  "ascii_raw u = map (\<lambda>c. char_of (unat c)) u"

definition ascii_lowercase :: "ustring \<Rightarrow> ustring" where
  "ascii_lowercase u = map (\<lambda>c. if 0x41 \<le> c \<and> c \<le> 0x5A then c + 0x20 else c) u"

definition ascii_isalpha :: "gunichar \<Rightarrow> bool" where
  "ascii_isalpha c \<longleftrightarrow> (0x41 \<le> c \<and> c \<le> 0x5A) \<or> (0x61 \<le> c \<and> c \<le> 0x7A)"

definition ascii_isdigit :: "gunichar \<Rightarrow> bool" where
  "ascii_isdigit c \<longleftrightarrow> 0x30 \<le> c \<and> c \<le> 0x39"

definition ascii_env :: "(string \<Rightarrow> response) \<Rightarrow> env" where
  "ascii_env send =
     \<lparr>ndebug = False,
      lyrics_dir = ''/cache/'',
      conf_get_str = (\<lambda>key. []),
      tf_compile = (\<lambda>script. None),
      tf_eval = (\<lambda>track code. (- 1, [])),
      spawn_command_line_sync = (\<lambda>command. None),
      validate = (\<lambda>bytes. True),
      ustring_of = ascii_ustring_of,
      raw = ascii_raw,
      lowercase = ascii_lowercase,
      g_unichar_isalpha = ascii_isalpha,
      g_unichar_isdigit = ascii_isdigit,
      uri_escape_string = (\<lambda>s. s),
      soup_session_send = send,
      ofstream_opens = (\<lambda>filename. True)\<rparr>"

text \<open>
  The same with a script configured: the template compiles to itself, evaluates to the
  command \<open>getlyrics\<close>, and the command prints the given output with the given status.
\<close>

definition script_env :: "(string \<Rightarrow> response) \<Rightarrow> string \<Rightarrow> int \<Rightarrow> env" where
  "script_env send output status =
     (ascii_env send)
       \<lparr>conf_get_str := (\<lambda>key. ''getlyrics''),
        tf_compile := (\<lambda>script. Some script),
        tf_eval := (\<lambda>track code. (9, ''getlyrics'' @ [CHR 0x00])),
        spawn_command_line_sync := (\<lambda>command. Some (output, status))\<rparr>"

text \<open>Web servers: one that has no page, one whose pages are too large.\<close>

definition not_found :: "string \<Rightarrow> response" where
  "not_found uri = \<lparr>stream = Some [Read ''Not Found''], status_code = 404\<rparr>"

definition oversized :: "string \<Rightarrow> response" where
  "oversized uri = \<lparr>stream = Some (replicate 257 (Read (replicate 4096 CHR ''a''))), status_code = 200\<rparr>"

text \<open>
  A server whose connection breaks while the body is read: the first read gives some
  bytes, the second one fails.
\<close>

definition broken_body :: "string \<Rightarrow> response" where
  "broken_body uri = \<lparr>stream = Some [Read ''<html><div>'', ReadErr], status_code = 200\<rparr>"

text \<open>A server with one page.\<close>

definition one_page :: "string \<Rightarrow> string \<Rightarrow> string \<Rightarrow> response" where
  "one_page page doc uri =
     (if uri = page then \<lparr>stream = Some [Read doc], status_code = 200\<rparr>
      else \<lparr>stream = Some [Read ''Not Found''], status_code = 404\<rparr>)"

text \<open>Tracks with an artist and a title and no embedded lyrics, or with an artist only.\<close>

definition track_of :: "string \<Rightarrow> string \<Rightarrow> track" where
  "track_of artist title =
     (\<lambda>key. if key = ''artist'' then Some artist else if key = ''title'' then Some title else None)"

definition untitled :: "string \<Rightarrow> track" where
  "untitled artist = (\<lambda>key. if key = ''artist'' then Some artist else None)"

text \<open>
  The document of the end-to-end scenario as the specification writes it, and a page of
  the same content in which the marker comment starts with its text.
\<close>

definition spec_fragment :: string where
  "spec_fragment =
     ''<div><!--...Usage of azlyrics.com content...--> Line one<br>Line two &quot;quoted&quot; </div>''"

definition lyrics_page :: string where
  "lyrics_page =
     ''<html><div><!-- Usage of azlyrics.com content --> Line one<br>Line two &quot;quoted&quot; </div></html>''"

section \<open>Properties\<close>

subsection \<open>Cache file names\<close>

lemma replace_char_idem:
  "new \<noteq> old \<Longrightarrow> replace_char old new (replace_char old new s) = replace_char old new s"
  by (induction s) (simp_all add: replace_char_def)

lemma replace_char_length: "length (replace_char old new s) = length s"
  by (simp add: replace_char_def)

lemma replace_char_absent: "new \<noteq> old \<Longrightarrow> old \<notin> set (replace_char old new s)"
  by (induction s) (simp_all add: replace_char_def)

lemma cached_filename_hyphen:
  "cached_filename d ''a-b'' ''c'' = cached_filename d ''a'' ''b-c''"
  by (simp add: cached_filename_def replace_char_def)

lemma split_at_first:
  "x \<notin> set xs \<Longrightarrow> x \<notin> set xs' \<Longrightarrow> xs @ x # ys = xs' @ x # ys' \<Longrightarrow> xs = xs' \<and> ys = ys'"
proof (induction xs arbitrary: xs')
  case Nil
  then show ?case by (cases xs') auto
next
  case (Cons a as)
  then show ?case by (cases xs') auto
qed

lemma cached_filename_injective:
  assumes "CHR ''-'' \<notin> set a" "CHR ''-'' \<notin> set a'"
    and "cached_filename d a t = cached_filename d a' t'"
  shows "replace_char CHR ''/'' CHR ''_'' a = replace_char CHR ''/'' CHR ''_'' a' \<and>
    replace_char CHR ''/'' CHR ''_'' t = replace_char CHR ''/'' CHR ''_'' t'"
proof -
  let ?f = "replace_char CHR ''/'' CHR ''_''"
  from assms(1,2) have "CHR ''-'' \<notin> set (?f a)" "CHR ''-'' \<notin> set (?f a')"
    by (auto simp: replace_char_def)
  moreover from assms(3) have "?f a @ CHR ''-'' # ?f t = ?f a' @ CHR ''-'' # ?f t'"
    by (simp add: cached_filename_def)
  ultimately show ?thesis
    by (rule split_at_first)
qed

text \<open>
  C6, as the code has it. The cache file name is a function of the directory, the artist
  and the title only: the directory, the artist with every slash replaced by an
  underscore, a hyphen, the title with every slash replaced by an underscore. Two
  (artist, title) pairs that agree after that replacement get the same file name. The
  converse holds among artists without a hyphen: there, equal file names give artists
  and titles that agree after the replacement.
\<close>

theorem cached_filename_collides:
  "cached_filename d a t =
     d @ map (\<lambda>c. if c = CHR ''/'' then CHR ''_'' else c) a @ ''-'' @
       map (\<lambda>c. if c = CHR ''/'' then CHR ''_'' else c) t
   \<and> CHR ''/'' \<notin> set (drop (length d) (cached_filename d a t))
   \<and> (replace_char CHR ''/'' CHR ''_'' a = replace_char CHR ''/'' CHR ''_'' a' \<and>
      replace_char CHR ''/'' CHR ''_'' t = replace_char CHR ''/'' CHR ''_'' t'
      \<longrightarrow> cached_filename d a t = cached_filename d a' t')
   \<and> (CHR ''-'' \<notin> set a \<and> CHR ''-'' \<notin> set a' \<and>
      cached_filename d a t = cached_filename d a' t'
      \<longrightarrow> replace_char CHR ''/'' CHR ''_'' a = replace_char CHR ''/'' CHR ''_'' a' \<and>
          replace_char CHR ''/'' CHR ''_'' t = replace_char CHR ''/'' CHR ''_'' t')"
proof -
  have "CHR ''/'' \<notin> set (replace_char CHR ''/'' CHR ''_'' a)"
       "CHR ''/'' \<notin> set (replace_char CHR ''/'' CHR ''_'' t)"
    by (simp_all add: replace_char_absent)
  then have "cached_filename d a t =
     d @ map (\<lambda>c. if c = CHR ''/'' then CHR ''_'' else c) a @ ''-'' @
       map (\<lambda>c. if c = CHR ''/'' then CHR ''_'' else c) t
   \<and> CHR ''/'' \<notin> set (drop (length d) (cached_filename d a t))
   \<and> (replace_char CHR ''/'' CHR ''_'' a = replace_char CHR ''/'' CHR ''_'' a' \<and>
      replace_char CHR ''/'' CHR ''_'' t = replace_char CHR ''/'' CHR ''_'' t'
      \<longrightarrow> cached_filename d a t = cached_filename d a' t')"
    by (simp add: cached_filename_def replace_char_def Let_def)
  with cached_filename_injective [of a a' d t t'] show ?thesis
    by blast
qed

theorem cached_filename_collides_witness:
  "(''AC/DC'', ''T/N/T'') \<noteq> (''AC_DC'', ''T_N/T'')
   \<and> cached_filename ''/c/'' ''AC/DC'' ''T/N/T'' = cached_filename ''/c/'' ''AC_DC'' ''T_N/T''
   \<and> cached_filename ''/c/'' ''AC/DC'' ''T/N/T'' = ''/c/AC_DC-T_N_T''
   \<and> replace_char CHR ''/'' CHR ''_'' ''T/N/T'' = replace_char CHR ''/'' CHR ''_'' ''T_N/T''"
proof -
  have same: "replace_char CHR ''/'' CHR ''_'' ''AC/DC'' = replace_char CHR ''/'' CHR ''_'' ''AC_DC''"
      "replace_char CHR ''/'' CHR ''_'' ''T/N/T'' = replace_char CHR ''/'' CHR ''_'' ''T_N/T''"
    by (simp_all add: replace_char_def)
  with cached_filename_collides [of "''/c/''" "''AC/DC''" "''T/N/T''" "''AC_DC''" "''T_N/T''"]
  have eq: "cached_filename ''/c/'' ''AC/DC'' ''T/N/T'' = cached_filename ''/c/'' ''AC_DC'' ''T_N/T''"
    by blast
  have "CHR ''-'' \<notin> set ''AC/DC''" "CHR ''-'' \<notin> set ''AC_DC''"
    by simp_all
  with eq cached_filename_collides [of "''/c/''" "''AC/DC''" "''T/N/T''" "''AC_DC''" "''T_N/T''"]
  have "replace_char CHR ''/'' CHR ''_'' ''T/N/T'' = replace_char CHR ''/'' CHR ''_'' ''T_N/T''"
    by blast
  moreover have "cached_filename ''/c/'' ''AC/DC'' ''T/N/T'' = ''/c/AC_DC-T_N_T''"
    using cached_filename_collides [of "''/c/''" "''AC/DC''" "''T/N/T''"] by simp
  ultimately show ?thesis
    using eq by simp
qed

text \<open>
  Against the claim: the hyphen that joins the two fields is not escaped, so file names
  also coincide for pairs that do not agree after the replacement.
\<close>

theorem cached_filename_hyphen_counterexample:
  "cached_filename ''/c/'' ''Jay-Z'' ''Intro'' = cached_filename ''/c/'' ''Jay'' ''Z-Intro''
   \<and> replace_char CHR ''/'' CHR ''_'' ''Jay-Z'' \<noteq> replace_char CHR ''/'' CHR ''_'' ''Jay''
   \<and> replace_char CHR ''/'' CHR ''_'' ''Intro'' \<noteq> replace_char CHR ''/'' CHR ''_'' ''Z-Intro''"
  by (simp add: cached_filename_def replace_char_def)

subsection \<open>Fetching a document\<close>

lemma read_body_Throw:
  "length res \<le> MAX_FILE_SIZE \<Longrightarrow>
   read_body nd rs res = Throw \<longleftrightarrow> MAX_FILE_SIZE < length res + length (delivered rs)"
  by (induction nd rs res rule: read_body.induct) auto

lemma read_body_not_empty_option: "read_body nd rs res \<noteq> Ret None"
  by (induction nd rs res rule: read_body.induct) auto

lemma read_body_Ret:
  "read_body nd rs res = Ret (Some doc) \<Longrightarrow> doc = res @ delivered rs"
  by (induction nd rs res rule: read_body.induct) (auto split: if_splits)

lemma delivered_replicate:
  "buf \<noteq> [] \<Longrightarrow> length (delivered (replicate n (Read buf))) = n * length buf"
  by (induction n) simp_all

text \<open>
  What the fetch does with the request and with the size of the body. When the request
  fails (no stream) or the status is not 2xx, the fetch returns the empty option. When
  there is a stream and the status is 2xx, the fetch throws exactly when the body that
  the stream delivers is longer than \<open>2 ^ 20\<close> bytes, and it never returns the empty
  option.
\<close>

theorem fetch_oversized_throws:
  "(stream (send uri) = None \<or> status_code (send uri) div 100 \<noteq> 2
      \<longrightarrow> fetch_file_as_chrome nd send uri = Ret None)
   \<and> (stream (send uri) = Some rs \<and> status_code (send uri) div 100 = 2
      \<longrightarrow> (fetch_file_as_chrome nd send uri = Throw \<longleftrightarrow> 2 ^ 20 < length (delivered rs))
        \<and> fetch_file_as_chrome nd send uri \<noteq> Ret None)"
  by (auto simp: fetch_file_as_chrome_def read_body_Throw read_body_not_empty_option
        MAX_FILE_SIZE_def Let_def split: option.splits)

theorem fetch_oversized_throws_witness:
  "fetch_file_as_chrome False oversized ''https://www.azlyrics.com/lyrics/a/b.html'' = Throw
   \<and> fetch_file_as_chrome False not_found ''https://www.azlyrics.com/lyrics/a/b.html'' = Ret None
   \<and> fetch_file_as_chrome False (\<lambda>uri. \<lparr>stream = None, status_code = 0\<rparr>)
        ''https://www.azlyrics.com/lyrics/a/b.html'' = Ret None"
  using fetch_oversized_throws [where send = oversized
          and uri = "''https://www.azlyrics.com/lyrics/a/b.html''"
          and rs = "replicate 257 (Read (replicate 4096 CHR ''a''))" and nd = False]
        fetch_oversized_throws [where send = not_found
          and uri = "''https://www.azlyrics.com/lyrics/a/b.html''" and rs = "[]" and nd = False]
        fetch_oversized_throws [where send = "\<lambda>uri. \<lparr>stream = None, status_code = 0\<rparr>"
          and uri = "''https://www.azlyrics.com/lyrics/a/b.html''" and rs = "[]" and nd = False]
  by (simp add: delivered_replicate oversized_def not_found_def)

text \<open>
  A read error while the body is streamed, after any reads that stay below the limit:
  the assertion fails or, without assertions, the bytes read so far are returned as the
  document. The empty option is not returned.
\<close>

lemma read_body_error:
  "length res + length buf \<le> MAX_FILE_SIZE \<Longrightarrow> buf \<noteq> [] \<Longrightarrow>
   read_body nd (Read buf # ReadErr # rs) res = (if nd then Ret (Some (res @ buf)) else Abort)"
  by simp

lemma fetch_read_error:
  "stream (send uri) = Some (Read ''abc'' # ReadErr # rs) \<Longrightarrow> status_code (send uri) = 200 \<Longrightarrow>
   fetch_file_as_chrome nd send uri = (if nd then Ret (Some ''abc'') else Abort)"
  by (simp add: fetch_file_as_chrome_def MAX_FILE_SIZE_def Let_def)

text \<open>
  C1. The failure of the transport while the body is read is not turned into the empty
  option. On a 2xx answer whose second read fails, the fetch ends in the failed
  assertion \<open>nbytes == 0\<close>; compiled without assertions it returns the bytes of the
  first read as the whole document.
\<close>

theorem fetch_read_error_not_empty:
  "fetch_file_as_chrome False broken_body ''https://www.azlyrics.com/lyrics/a/b.html'' = Abort
   \<and> fetch_file_as_chrome True broken_body ''https://www.azlyrics.com/lyrics/a/b.html'' =
       Ret (Some ''<html><div>'')"
  by (simp add: fetch_file_as_chrome_def broken_body_def MAX_FILE_SIZE_def)

subsection \<open>Text normalisation\<close>

lemma alphadigitize_acc:
  "foldl (\<lambda>res c. if P c then res @ [c] else res) acc s = acc @ filter P s"
  by (induction s arbitrary: acc) simp_all

lemma alphadigitize_filter:
  "alphadigitize isalpha isdigit s = filter (\<lambda>c. isalpha c \<or> isdigit c) s"
  unfolding alphadigitize_def by (simp add: alphadigitize_acc)

text \<open>
  C7. \<open>alphadigitize\<close> is idempotent; it keeps exactly the characters that are alphabetic
  or decimal digits (each as often as it occurs), in their order; it maps the empty
  string to the empty string. It is a function of its argument alone.
\<close>

theorem alphadigitize_idempotent:
  "alphadigitize isalpha isdigit (alphadigitize isalpha isdigit s) = alphadigitize isalpha isdigit s
   \<and> alphadigitize isalpha isdigit s = filter (\<lambda>c. isalpha c \<or> isdigit c) s
   \<and> set (alphadigitize isalpha isdigit s) = {c \<in> set s. isalpha c \<or> isdigit c}
   \<and> subseq (alphadigitize isalpha isdigit s) s
   \<and> alphadigitize isalpha isdigit [] = []"
  by (simp add: alphadigitize_filter)

subsection \<open>Lyrics from the script\<close>

lemma script_never_raises: "\<exists>ro. snd (get_lyrics_from_script e track) = Ret ro"
  by (simp add: get_lyrics_from_script_def Let_def split: option.splits prod.splits)

lemma script_Some_iff:
  "snd (get_lyrics_from_script e track) = Ret (Some l) \<longleftrightarrow>
     (\<exists>code len buf out.
        conf_get_str e ''lyricbar.customcmd'' \<noteq> [] \<and>
        tf_compile e (conf_get_str e ''lyricbar.customcmd'') = Some code \<and>
        tf_eval e track code = (len, buf) \<and> 0 \<le> len \<and>
        spawn_command_line_sync e (resize (nat len) buf) = Some (out, 0) \<and>
        out \<noteq> [] \<and> validate e out \<and> l = ustring_of e out)"
  by (auto simp: get_lyrics_from_script_def Let_def split: option.splits prod.splits)

lemma script_no_fetch: "HttpGet u \<notin> set (fst (get_lyrics_from_script e track))"
  by (simp add: get_lyrics_from_script_def Let_def split: option.splits prod.splits)

text \<open>
  C8. With an empty command template the script provider returns the empty option and
  its only call is the read of the option: nothing is compiled, evaluated or run. It
  returns lyrics exactly when the template is not empty, compiles, evaluates to a
  command (a length that is not negative), the command runs with exit status 0, and its
  output is not empty and valid UTF-8; the lyrics are then that output. In every other
  case it returns the empty option.
\<close>

theorem script_accepts_only_valid_output:
  "(conf_get_str e ''lyricbar.customcmd'' = [] \<longrightarrow>
      get_lyrics_from_script e track = ([ConfGetStr ''lyricbar.customcmd''], Ret None))
   \<and> (snd (get_lyrics_from_script e track) = Ret (Some l) \<longleftrightarrow>
       (\<exists>code len buf out.
          conf_get_str e ''lyricbar.customcmd'' \<noteq> [] \<and>
          tf_compile e (conf_get_str e ''lyricbar.customcmd'') = Some code \<and>
          tf_eval e track code = (len, buf) \<and> 0 \<le> len \<and>
          spawn_command_line_sync e (resize (nat len) buf) = Some (out, 0) \<and>
          out \<noteq> [] \<and> validate e out \<and> l = ustring_of e out))
   \<and> ((\<forall>l. snd (get_lyrics_from_script e track) \<noteq> Ret (Some l)) \<longrightarrow>
        snd (get_lyrics_from_script e track) = Ret None)"
proof (intro conjI)
  show "conf_get_str e ''lyricbar.customcmd'' = [] \<longrightarrow>
      get_lyrics_from_script e track = ([ConfGetStr ''lyricbar.customcmd''], Ret None)"
    by (simp add: get_lyrics_from_script_def)
  show "snd (get_lyrics_from_script e track) = Ret (Some l) \<longleftrightarrow>
       (\<exists>code len buf out.
          conf_get_str e ''lyricbar.customcmd'' \<noteq> [] \<and>
          tf_compile e (conf_get_str e ''lyricbar.customcmd'') = Some code \<and>
          tf_eval e track code = (len, buf) \<and> 0 \<le> len \<and>
          spawn_command_line_sync e (resize (nat len) buf) = Some (out, 0) \<and>
          out \<noteq> [] \<and> validate e out \<and> l = ustring_of e out)"
    by (rule script_Some_iff)
  show "(\<forall>l. snd (get_lyrics_from_script e track) \<noteq> Ret (Some l)) \<longrightarrow>
        snd (get_lyrics_from_script e track) = Ret None"
    using script_never_raises [of e track] by (metis option.exhaust)
qed

theorem script_accepts_only_valid_output_witness:
  "get_lyrics_from_script (ascii_env not_found) (track_of ''A'' ''B'')
     = ([ConfGetStr ''lyricbar.customcmd''], Ret None)
   \<and> snd (get_lyrics_from_script (script_env not_found ''la'' 0) (track_of ''A'' ''B''))
     = Ret (Some (ascii_ustring_of ''la''))
   \<and> snd (get_lyrics_from_script (script_env not_found ''la'' 1) (track_of ''A'' ''B''))
     = Ret None"
proof -
  let ?tr = "track_of ''A'' ''B''"
  have a: "get_lyrics_from_script (ascii_env not_found) ?tr
      = ([ConfGetStr ''lyricbar.customcmd''], Ret None)"
    using script_accepts_only_valid_output [THEN conjunct1, of "ascii_env not_found" ?tr]
    by (simp add: ascii_env_def)
  have b: "snd (get_lyrics_from_script (script_env not_found ''la'' 0) ?tr)
      = Ret (Some (ascii_ustring_of ''la''))"
    apply (rule script_accepts_only_valid_output [THEN conjunct2, THEN conjunct1, THEN iffD2])
    apply (rule exI [of _ "''getlyrics''"], rule exI [of _ 9])
    apply (rule exI [of _ "''getlyrics'' @ [CHR 0x00]"], rule exI [of _ "''la''"])
    apply (simp add: script_env_def ascii_env_def resize_def)
    done
  have "\<forall>l. snd (get_lyrics_from_script (script_env not_found ''la'' 1) ?tr) \<noteq> Ret (Some l)"
    by (simp add: get_lyrics_from_script_def script_env_def ascii_env_def resize_def Let_def)
  then have c: "snd (get_lyrics_from_script (script_env not_found ''la'' 1) ?tr) = Ret None"
    by (rule script_accepts_only_valid_output [THEN conjunct2, THEN conjunct2, THEN mp])
  from a b c show ?thesis by simp
qed

subsection \<open>The retry loop of the web provider\<close>

lemma drop_to_bracket_Nil: "drop_to_bracket [] = []"
  by (subst drop_to_bracket.simps) simp

lemma drop_to_bracket_snoc:
  "drop_to_bracket (xs @ [x]) = (if bracket x then xs @ [x] else drop_to_bracket xs)"
  by (subst drop_to_bracket.simps) (simp add: bracket_def)

lemma drop_to_bracket_none:
  "\<forall>c\<in>set title. \<not> bracket c \<Longrightarrow> drop_to_bracket title = []"
  by (induction title rule: rev_induct) (simp_all add: drop_to_bracket_Nil drop_to_bracket_snoc)

lemma drop_to_bracket_last:
  "bracket b \<Longrightarrow> \<forall>c\<in>set s. \<not> bracket c \<Longrightarrow> drop_to_bracket (p @ b # s) = p @ [b]"
proof (induction s rule: rev_induct)
  case Nil
  then show ?case using drop_to_bracket_snoc [of p b] by simp
next
  case (snoc x xs)
  then show ?case using drop_to_bracket_snoc [of "p @ b # xs" x] by simp
qed

lemma drop_to_bracket_length: "length (drop_to_bracket title) \<le> length title"
  by (induction title rule: rev_induct) (simp_all add: drop_to_bracket_Nil drop_to_bracket_snoc)

lemma retry_loop_success:
  "fetch e (api_url e artist title) = Ret (Some doc) \<Longrightarrow>
   retry_loop e artist title = ([HttpGet (api_url e artist title)], Ret (Some doc))"
  by (subst retry_loop.simps) (simp add: Let_def)

lemma retry_loop_give_up:
  "fetch e (api_url e artist title) = Ret None \<Longrightarrow> \<forall>c\<in>set title. \<not> bracket c \<Longrightarrow>
   retry_loop e artist title = ([HttpGet (api_url e artist title)], Ret None)"
  by (subst retry_loop.simps) (simp add: Let_def drop_to_bracket_none)

lemma retry_loop_retry:
  "fetch e (api_url e artist (p @ b # s)) = Ret None \<Longrightarrow> bracket b \<Longrightarrow> \<forall>c\<in>set s. \<not> bracket c \<Longrightarrow>
   retry_loop e artist (p @ b # s) =
     (HttpGet (api_url e artist (p @ b # s)) # fst (retry_loop e artist p),
      snd (retry_loop e artist p))"
  by (subst retry_loop.simps) (simp add: Let_def drop_to_bracket_last split: prod.splits)

lemma retry_loop_raise:
  "fetch e (api_url e artist title) = Throw \<Longrightarrow>
   retry_loop e artist title = ([HttpGet (api_url e artist title)], Throw)"
  "fetch e (api_url e artist title) = Abort \<Longrightarrow>
   retry_loop e artist title = ([HttpGet (api_url e artist title)], Abort)"
  by (subst retry_loop.simps, simp add: Let_def)+

lemma title_split:
  "(\<forall>c\<in>set title. \<not> bracket c) \<or>
   (\<exists>p b s. title = p @ b # s \<and> bracket b \<and> (\<forall>c\<in>set s. \<not> bracket c))"
proof (induction title rule: rev_induct)
  case Nil
  then show ?case by simp
next
  case (snoc x xs)
  show ?case
  proof (cases "bracket x")
    case True
    then have "xs @ [x] = xs @ x # [] \<and> bracket x \<and> (\<forall>c\<in>set []. \<not> bracket c)" by simp
    then show ?thesis by blast
  next
    case False
    from snoc show ?thesis
    proof
      assume "\<forall>c\<in>set xs. \<not> bracket c"
      with False show ?thesis by simp
    next
      assume "\<exists>p b s. xs = p @ b # s \<and> bracket b \<and> (\<forall>c\<in>set s. \<not> bracket c)"
      then obtain p b s where "xs = p @ b # s" "bracket b" "\<forall>c\<in>set s. \<not> bracket c" by blast
      with False have "xs @ [x] = p @ b # (s @ [x]) \<and> bracket b \<and> (\<forall>c\<in>set (s @ [x]). \<not> bracket c)"
        by simp
      then show ?thesis by blast
    qed
  qed
qed

lemma retry_loop_fetches:
  "length (fst (retry_loop e artist title)) \<le> length (filter bracket title) + 1"
proof (induction title rule: length_induct)
  case (1 title)
  consider (throw) "fetch e (api_url e artist title) = Throw"
    | (abort) "fetch e (api_url e artist title) = Abort"
    | (doc) doc where "fetch e (api_url e artist title) = Ret (Some doc)"
    | (none) "fetch e (api_url e artist title) = Ret None"
    by (metis outcome.exhaust option.exhaust)
  then show ?case
  proof cases
    case throw then show ?thesis by (simp add: retry_loop_raise)
  next
    case abort then show ?thesis by (simp add: retry_loop_raise)
  next
    case doc then show ?thesis by (simp add: retry_loop_success)
  next
    case none
    from title_split [of title] show ?thesis
    proof
      assume "\<forall>c\<in>set title. \<not> bracket c"
      with none show ?thesis by (simp add: retry_loop_give_up)
    next
      assume "\<exists>p b s. title = p @ b # s \<and> bracket b \<and> (\<forall>c\<in>set s. \<not> bracket c)"
      then obtain p b s where t: "title = p @ b # s" and b: "bracket b"
        and s: "\<forall>c\<in>set s. \<not> bracket c" by blast
      from t have "length p < length title" by simp
      with 1 have "length (fst (retry_loop e artist p)) \<le> length (filter bracket p) + 1"
        by blast
      moreover from none t b s have "fst (retry_loop e artist title) =
          HttpGet (api_url e artist title) # fst (retry_loop e artist p)"
        by (simp add: retry_loop_retry)
      ultimately show ?thesis using t b by simp
    qed
  qed
qed


text \<open>The ASCII environment: the bytes of the characters of a byte string are that string.\<close>

lemma ascii_raw_ustring_of: "ascii_raw (ascii_ustring_of s) = s"
proof -
  have "unat (of_nat (of_char c) :: 32 word) = of_char c" for c :: char
  proof -
    have "(of_char c :: nat) mod 256 < 256" by (rule mod_less_divisor) simp
    then have "(of_char c :: nat) < 256" by simp
    then have "(of_char c :: nat) < 4294967296" by linarith
    then show ?thesis by (simp add: unat_of_nat)
  qed
  then show ?thesis
    by (simp add: ascii_raw_def ascii_ustring_of_def comp_def map_idI)
qed

text \<open>
  C4. One turn of the retry loop. A fetch that gives a document ends the loop with it.
  After a fetch that gives the empty option, the title (not its normalised copy) is cut
  from the right: a title with none of \<open>( ) [ ]\<close> is cut down to nothing and the loop
  ends with the empty option; otherwise the title is cut down to its last such
  character, that character is dropped as well, and the loop goes on with what is left.
\<close>

theorem title_truncation_retry:
  "(fetch e (api_url e artist title) = Ret (Some doc) \<longrightarrow>
      retry_loop e artist title = ([HttpGet (api_url e artist title)], Ret (Some doc)))
   \<and> (fetch e (api_url e artist title) = Ret None \<and> (\<forall>c\<in>set title. \<not> bracket c) \<longrightarrow>
      drop_to_bracket title = [] \<and>
      retry_loop e artist title = ([HttpGet (api_url e artist title)], Ret None))
   \<and> (fetch e (api_url e artist title) = Ret None \<and>
      title = p @ b # s \<and> bracket b \<and> (\<forall>c\<in>set s. \<not> bracket c) \<longrightarrow>
      drop_to_bracket title = p @ [b] \<and>
      retry_loop e artist title =
        (HttpGet (api_url e artist title) # fst (retry_loop e artist p),
         snd (retry_loop e artist p)))"
  by (auto simp: retry_loop_success retry_loop_give_up retry_loop_retry
        drop_to_bracket_none drop_to_bracket_last)

text \<open>
  The title "Song (Remix)" on a server that has the page of "song" only: the provider
  asks for "songremix" twice (the second time after dropping the closing parenthesis),
  then for "song", and returns the lyrics of that page.
\<close>

theorem title_truncation_retry_witness:
  "download_lyrics_from_azlyrics
     (ascii_env (one_page ''https://www.azlyrics.com/lyrics/artist/song.html'' lyrics_page))
     (track_of ''Artist'' ''Song (Remix)'') =
   ([FindMeta ''artist'', FindMeta ''title'',
     HttpGet ''https://www.azlyrics.com/lyrics/artist/songremix.html'',
     HttpGet ''https://www.azlyrics.com/lyrics/artist/songremix.html'',
     HttpGet ''https://www.azlyrics.com/lyrics/artist/song.html''],
    Ret (Some (ascii_ustring_of
      (''Line oneLine two '' @ CHR 0x22 # ''quoted'' @ [CHR 0x22, CHR 0x0A]))))
   \<and> retry_loop (ascii_env not_found) (ascii_ustring_of ''artist'') (ascii_ustring_of ''song'') =
       ([HttpGet ''https://www.azlyrics.com/lyrics/artist/song.html''], Ret None)"
proof -
  let ?send = "one_page ''https://www.azlyrics.com/lyrics/artist/song.html'' lyrics_page"
  let ?e = "ascii_env ?send"
  let ?a = "ascii_ustring_of ''artist''"
  have norm: "alphadigitize ascii_isalpha ascii_isdigit (ascii_ustring_of ''song (remix)'')
        = ascii_ustring_of ''songremix''"
      "alphadigitize ascii_isalpha ascii_isdigit (ascii_ustring_of ''song (remix'')
        = ascii_ustring_of ''songremix''"
      "alphadigitize ascii_isalpha ascii_isdigit (ascii_ustring_of ''song '')
        = ascii_ustring_of ''song''"
    by (simp_all add: alphadigitize_filter ascii_isalpha_def ascii_isdigit_def ascii_ustring_of_def)
  have url: "api_url ?e ?a (ascii_ustring_of ''song (remix)'')
        = ''https://www.azlyrics.com/lyrics/artist/songremix.html''"
      "api_url ?e ?a (ascii_ustring_of ''song (remix'')
        = ''https://www.azlyrics.com/lyrics/artist/songremix.html''"
      "api_url ?e ?a (ascii_ustring_of ''song '')
        = ''https://www.azlyrics.com/lyrics/artist/song.html''"
    by (simp_all add: api_url_def ascii_env_def norm ascii_raw_ustring_of AZL_FMT_def
          digit_value_def)
  have miss: "fetch ?e ''https://www.azlyrics.com/lyrics/artist/songremix.html'' = Ret None"
    by (simp add: fetch_file_as_chrome_def ascii_env_def one_page_def)
  have hit: "fetch ?e ''https://www.azlyrics.com/lyrics/artist/song.html'' = Ret (Some lyrics_page)"
    by (simp add: fetch_file_as_chrome_def ascii_env_def one_page_def MAX_FILE_SIZE_def
          lyrics_page_def)
  have t0: "ascii_ustring_of ''song (remix)'' = ascii_ustring_of ''song (remix'' @ 0x29 # []"
    and t1: "ascii_ustring_of ''song (remix'' = ascii_ustring_of ''song '' @ 0x28 # ascii_ustring_of ''remix''"
    and s1: "\<forall>c\<in>set (ascii_ustring_of ''remix''). \<not> bracket c"
    by (simp_all add: ascii_ustring_of_def bracket_def)
  have r2: "retry_loop ?e ?a (ascii_ustring_of ''song '') =
      ([HttpGet ''https://www.azlyrics.com/lyrics/artist/song.html''], Ret (Some lyrics_page))"
    using title_truncation_retry [THEN conjunct1, of ?e ?a "ascii_ustring_of ''song ''" lyrics_page]
      hit url(3) by simp
  have r1: "retry_loop ?e ?a (ascii_ustring_of ''song (remix'') =
      ([HttpGet ''https://www.azlyrics.com/lyrics/artist/songremix.html'',
        HttpGet ''https://www.azlyrics.com/lyrics/artist/song.html''], Ret (Some lyrics_page))"
    using title_truncation_retry [THEN conjunct2, THEN conjunct2, of ?e ?a
        "ascii_ustring_of ''song (remix''" "ascii_ustring_of ''song ''" "0x28"
        "ascii_ustring_of ''remix''"]
      miss url(2) t1 s1 r2 by (simp add: bracket_def)
  have r0: "retry_loop ?e ?a (ascii_ustring_of ''song (remix)'') =
      ([HttpGet ''https://www.azlyrics.com/lyrics/artist/songremix.html'',
        HttpGet ''https://www.azlyrics.com/lyrics/artist/songremix.html'',
        HttpGet ''https://www.azlyrics.com/lyrics/artist/song.html''], Ret (Some lyrics_page))"
    using title_truncation_retry [THEN conjunct2, THEN conjunct2, of ?e ?a
        "ascii_ustring_of ''song (remix)''" "ascii_ustring_of ''song (remix''" "0x29" "[]"]
      miss url(1) t0 r1 by (simp add: bracket_def)
  have low: "ascii_lowercase (ascii_ustring_of ''Song (Remix)'') = ascii_ustring_of ''song (remix)''"
      "alphadigitize ascii_isalpha ascii_isdigit (ascii_lowercase (ascii_ustring_of ''Artist'')) = ?a"
    by (simp_all add: alphadigitize_filter ascii_isalpha_def ascii_isdigit_def
          ascii_lowercase_def ascii_ustring_of_def)
  have page: "extract_lyrics lyrics_page =
      Some (''Line oneLine two '' @ CHR 0x22 # ''quoted'' @ [CHR 0x22, CHR 0x0A])"
    by (simp add: extract_lyrics_def clean_lyrics_def lyrics_expr_def br_expr_def tag_expr_def
          quot_expr_def lyrics_page_def lit_def isspace_def line_terminator_def match_size_def
          sub_match1_def)
  have sel: "lowercase ?e = ascii_lowercase" "ustring_of ?e = ascii_ustring_of"
      "g_unichar_isalpha ?e = ascii_isalpha" "g_unichar_isdigit ?e = ascii_isdigit"
    by (simp_all add: ascii_env_def)
  have found: "download_lyrics_from_azlyrics ?e (track_of ''Artist'' ''Song (Remix)'') =
     ([FindMeta ''artist'', FindMeta ''title'',
       HttpGet ''https://www.azlyrics.com/lyrics/artist/songremix.html'',
       HttpGet ''https://www.azlyrics.com/lyrics/artist/songremix.html'',
       HttpGet ''https://www.azlyrics.com/lyrics/artist/song.html''],
      Ret (Some (ascii_ustring_of
        (''Line oneLine two '' @ CHR 0x22 # ''quoted'' @ [CHR 0x22, CHR 0x0A]))))"
    unfolding download_lyrics_from_azlyrics_def
    by (simp add: track_of_def sel low r0 page del: append.simps)
  have plain: "alphadigitize ascii_isalpha ascii_isdigit (ascii_ustring_of ''song'')
        = ascii_ustring_of ''song''"
      "\<forall>c\<in>set (ascii_ustring_of ''song''). \<not> bracket c"
    by (simp_all add: alphadigitize_filter ascii_isalpha_def ascii_isdigit_def
          ascii_ustring_of_def bracket_def)
  have url': "api_url (ascii_env not_found) ?a (ascii_ustring_of ''song'')
        = ''https://www.azlyrics.com/lyrics/artist/song.html''"
    by (simp add: api_url_def ascii_env_def plain ascii_raw_ustring_of AZL_FMT_def
          digit_value_def)
  have "fetch (ascii_env not_found) ''https://www.azlyrics.com/lyrics/artist/song.html'' = Ret None"
    by (simp add: fetch_file_as_chrome_def ascii_env_def not_found_def)
  with title_truncation_retry [THEN conjunct2, THEN conjunct1, of "ascii_env not_found" ?a
      "ascii_ustring_of ''song''"] url' plain(2)
  have "retry_loop (ascii_env not_found) ?a (ascii_ustring_of ''song'') =
      ([HttpGet ''https://www.azlyrics.com/lyrics/artist/song.html''], Ret None)"
    by simp
  with found show ?thesis
    by (simp only: simp_thms)
qed

lemma retry_loop_events:
  "ev \<in> set (fst (retry_loop e artist title)) \<Longrightarrow> \<exists>u. ev = HttpGet u"
proof (induction title arbitrary: ev rule: length_induct)
  case (1 title)
  let ?url = "api_url e artist title"
  show ?case
  proof (cases "fetch e ?url = Ret None \<and> drop_to_bracket title \<noteq> []")
    case True
    let ?t = "butlast (drop_to_bracket title)"
    from True have "length ?t < length title"
      using drop_to_bracket_length [of title] by (cases "drop_to_bracket title" rule: rev_cases) auto
    with "1.IH" have ih: "\<forall>x. x \<in> set (fst (retry_loop e artist ?t)) \<longrightarrow> (\<exists>u. x = HttpGet u)"
      by blast
    from True have "fst (retry_loop e artist title) =
        HttpGet ?url # fst (retry_loop e artist ?t)"
      by (subst retry_loop.simps) (simp add: Let_def split: prod.splits)
    with "1.prems" ih show ?thesis by auto
  next
    case False
    then have "fst (retry_loop e artist title) = [HttpGet ?url]"
      by (subst retry_loop.simps) (auto simp: Let_def split: outcome.splits option.splits)
    with "1.prems" show ?thesis by simp
  qed
qed

lemma drop_to_bracket_decreases:
  "title \<noteq> [] \<Longrightarrow> length (butlast (drop_to_bracket title)) < length title"
  using drop_to_bracket_length [of title] by (cases title) simp_all

text \<open>
  C10, as the code has it. The retry loop is a total function (its recursion is well
  founded: the title gets shorter). It makes at most one fetch more than the title has
  characters among \<open>( ) [ ]\<close>, so at most one more than the length of the title; it
  calls nothing else. A turn that starts with a title that is not empty leaves a
  shorter title. A turn that starts with the empty title and fails is the last one.
\<close>

theorem retry_loop_bounded:
  "length (fst (retry_loop e artist title)) \<le> length (filter bracket title) + 1
   \<and> length (filter bracket title) + 1 \<le> length title + 1
   \<and> (\<forall>ev\<in>set (fst (retry_loop e artist title)). \<exists>u. ev = HttpGet u)
   \<and> (title \<noteq> [] \<longrightarrow> length (butlast (drop_to_bracket title)) < length title)
   \<and> (fetch e (api_url e artist []) = Ret None \<longrightarrow>
        retry_loop e artist [] = ([HttpGet (api_url e artist [])], Ret None))"
  using retry_loop_fetches [of e artist title] retry_loop_events [of _ e artist title]
    drop_to_bracket_decreases [of title] retry_loop_give_up [of e artist "[]"]
  by auto

theorem retry_loop_bounded_witness:
  "length (fst (retry_loop (ascii_env not_found) (ascii_ustring_of ''artist'')
      (ascii_ustring_of ''()''))) \<le> 3
   \<and> length (butlast (drop_to_bracket (ascii_ustring_of ''()''))) < 2
   \<and> retry_loop (ascii_env not_found) (ascii_ustring_of ''artist'') [] =
       ([HttpGet ''https://www.azlyrics.com/lyrics/artist/.html''], Ret None)"
proof -
  let ?e = "ascii_env not_found"
  let ?a = "ascii_ustring_of ''artist''"
  have url: "api_url ?e ?a [] = ''https://www.azlyrics.com/lyrics/artist/.html''"
    by (simp add: api_url_def ascii_env_def alphadigitize_filter ascii_raw_ustring_of AZL_FMT_def
          digit_value_def) (simp add: ascii_raw_def)
  have miss: "fetch ?e u = Ret None" for u
    by (simp add: fetch_file_as_chrome_def ascii_env_def not_found_def)
  have two: "length (filter bracket (ascii_ustring_of ''()'')) = 2" "ascii_ustring_of ''()'' \<noteq> []"
      "length (ascii_ustring_of ''()'') = 2"
    by (simp_all add: ascii_ustring_of_def bracket_def)
  from retry_loop_bounded [of ?e ?a "ascii_ustring_of ''()''"] two url miss
    retry_loop_bounded [of ?e ?a "[]"]
  show ?thesis by simp
qed

text \<open>
  The bound of the claim, the length of the title, is exceeded by a title that is all
  brackets: for "()" three fetches fail and for the empty title one does; the turn on the
  empty title does not shorten it.
\<close>

theorem retry_loop_bound_counterexample:
  "retry_loop (ascii_env not_found) (ascii_ustring_of ''artist'') (ascii_ustring_of ''()'') =
     ([HttpGet ''https://www.azlyrics.com/lyrics/artist/.html'',
       HttpGet ''https://www.azlyrics.com/lyrics/artist/.html'',
       HttpGet ''https://www.azlyrics.com/lyrics/artist/.html''], Ret None)
   \<and> length (ascii_ustring_of ''()'') = 2
   \<and> retry_loop (ascii_env not_found) (ascii_ustring_of ''artist'') [] =
     ([HttpGet ''https://www.azlyrics.com/lyrics/artist/.html''], Ret None)
   \<and> drop_to_bracket [] = []"
proof -
  let ?e = "ascii_env not_found"
  let ?a = "ascii_ustring_of ''artist''"
  have url: "api_url ?e ?a t = ''https://www.azlyrics.com/lyrics/artist/.html''"
    if "\<forall>c\<in>set t. bracket c" for t
  proof -
    from that have "filter (\<lambda>c. ascii_isalpha c \<or> ascii_isdigit c) t = []"
      by (auto simp: filter_empty_conv bracket_def ascii_isalpha_def ascii_isdigit_def)
    then show ?thesis
      by (simp add: api_url_def ascii_env_def alphadigitize_filter ascii_raw_ustring_of
          AZL_FMT_def digit_value_def) (simp add: ascii_raw_def)
  qed
  have miss: "fetch ?e u = Ret None" for u
    by (simp add: fetch_file_as_chrome_def ascii_env_def not_found_def)
  have r0: "retry_loop ?e ?a [] = ([HttpGet ''https://www.azlyrics.com/lyrics/artist/.html''], Ret None)"
    using retry_loop_give_up [of ?e ?a "[]"] miss url [of "[]"] by simp
  have r1: "retry_loop ?e ?a [0x28] =
      ([HttpGet ''https://www.azlyrics.com/lyrics/artist/.html'',
        HttpGet ''https://www.azlyrics.com/lyrics/artist/.html''], Ret None)"
    using retry_loop_retry [of ?e ?a "[]" "0x28" "[]"] miss url [of "[0x28]"] r0
    by (simp add: bracket_def)
  have r2: "retry_loop ?e ?a [0x28, 0x29] =
      ([HttpGet ''https://www.azlyrics.com/lyrics/artist/.html'',
        HttpGet ''https://www.azlyrics.com/lyrics/artist/.html'',
        HttpGet ''https://www.azlyrics.com/lyrics/artist/.html''], Ret None)"
    using retry_loop_retry [of ?e ?a "[0x28]" "0x29" "[]"] miss url [of "[0x28, 0x29]"] r1
    by (simp add: bracket_def)
  have "ascii_ustring_of ''()'' = [0x28, 0x29]"
    by (simp add: ascii_ustring_of_def)
  with r0 r2 show ?thesis
    by (simp add: drop_to_bracket_Nil)
qed

subsection \<open>Extracting and cleaning the lyrics\<close>

lemma rmatch_suffix: "rmatch r s = Some (ms, rest) \<Longrightarrow> suffix rest s"
  by (induction r s arbitrary: ms rest rule: rmatch.induct)
     (auto split: if_splits option.splits intro: suffix_ConsI)

lemma rmatch_length: "rmatch r s = Some (ms, rest) \<Longrightarrow> length rest \<le> length s"
  by (auto dest: rmatch_suffix suffix_length_le)

lemma rmatch_lit:
  "rmatch (lit p) s = (if take (length p) s = p then Some ([], drop (length p) s) else None)"
proof (induction p arbitrary: s)
  case Nil
  then show ?case by (simp add: lit_def)
next
  case (Cons c p)
  then show ?case by (cases s) (auto simp: lit_def)
qed

lemma rmatch_tag_body:
  "rmatch [StarG (\<lambda>c. c \<noteq> CHR ''>''), Lit CHR ''>''] s =
     (if CHR ''>'' \<in> set s then Some ([], tl (dropWhile (\<lambda>c. c \<noteq> CHR ''>'') s)) else None)"
  by (induction s) auto

lemma rmatch_tag:
  "rmatch tag_expr s =
     (case s of
        [] \<Rightarrow> None
      | c # cs \<Rightarrow>
          if c = CHR ''<'' \<and> CHR ''>'' \<in> set cs
          then Some ([], tl (dropWhile (\<lambda>c. c \<noteq> CHR ''>'') cs)) else None)"
  by (cases s) (simp_all add: tag_expr_def lit_def rmatch_tag_body)

lemma search_tag: "regex_search tag_expr s = None \<longleftrightarrow> \<not> has_tag s"
  by (induction s) (auto simp: rmatch_tag split: option.splits)

lemma has_tag_no_lt: "CHR ''<'' \<notin> set s \<Longrightarrow> \<not> has_tag s"
  by (induction s) auto

lemma has_tag_append:
  "has_tag (a @ b) \<longleftrightarrow> has_tag a \<or> (CHR ''<'' \<in> set a \<and> CHR ''>'' \<in> set b) \<or> has_tag b"
  by (induction a) auto

lemma has_tag_suffix: "suffix r s \<Longrightarrow> has_tag r \<Longrightarrow> has_tag s"
  by (auto simp: suffix_def has_tag_append)

lemma regex_replace_set: "set (regex_replace r fmt s) \<subseteq> set fmt \<union> set s"
proof (induction s rule: length_induct)
  case (1 s)
  show ?case
  proof (cases s)
    case Nil
    then show ?thesis by (auto split: option.splits)
  next
    case (Cons x xs)
    with 1 have tail: "set (regex_replace r fmt xs) \<subseteq> set fmt \<union> set xs"
      by simp
    show ?thesis
    proof (cases "rmatch r (x # xs)")
      case None
      with Cons tail show ?thesis by auto
    next
      case (Some m)
      obtain ms rest where m: "m = (ms, rest)" by (cases m)
      show ?thesis
      proof (cases "length rest \<le> length xs")
        case True
        with 1 Cons have "set (regex_replace r fmt rest) \<subseteq> set fmt \<union> set rest"
          by simp
        moreover from Some m have "set rest \<subseteq> set (x # xs)"
          by (auto dest!: rmatch_suffix set_mono_suffix)
        ultimately show ?thesis using Cons Some m True by auto
      next
        case False
        with Cons Some m tail show ?thesis by auto
      qed
    qed
  qed
qed

text \<open>A replacement by a format without \<open><\<close> and \<open>>\<close> makes no tag.\<close>

lemma regex_replace_no_new_tag:
  assumes fmt: "CHR ''<'' \<notin> set fmt" "CHR ''>'' \<notin> set fmt"
  shows "has_tag (regex_replace r fmt s) \<Longrightarrow> has_tag s"
proof (induction s rule: length_induct)
  case (1 s)
  note out = regex_replace_set [of r fmt]
  show ?case
  proof (cases s)
    case Nil
    with "1.prems" fmt show ?thesis
      by (auto simp: has_tag_no_lt split: option.splits)
  next
    case (Cons x xs)
    have copy: "has_tag (x # xs)" if "has_tag (x # regex_replace r fmt xs)"
    proof -
      from that have "x = CHR ''<'' \<and> CHR ''>'' \<in> set (regex_replace r fmt xs)
          \<or> has_tag (regex_replace r fmt xs)" by simp
      then show ?thesis
      proof
        assume "x = CHR ''<'' \<and> CHR ''>'' \<in> set (regex_replace r fmt xs)"
        with out [of xs] fmt show ?thesis by auto
      next
        assume "has_tag (regex_replace r fmt xs)"
        with "1.IH" Cons show ?thesis by simp
      qed
    qed
    show ?thesis
    proof (cases "rmatch r (x # xs)")
      case None
      with "1.prems" Cons copy show ?thesis by simp
    next
      case (Some m)
      obtain ms rest where m: "m = (ms, rest)" by (cases m)
      show ?thesis
      proof (cases "length rest \<le> length xs")
        case True
        with "1.prems" Cons Some m have "has_tag (fmt @ regex_replace r fmt rest)" by simp
        with fmt have "has_tag (regex_replace r fmt rest)"
          by (simp add: has_tag_append has_tag_no_lt)
        with "1.IH" Cons True have "has_tag rest" by simp
        moreover from Some m have "suffix rest (x # xs)" by (simp add: rmatch_suffix)
        ultimately show ?thesis using Cons by (simp only: has_tag_suffix)
      next
        case False
        with "1.prems" Cons Some m have "has_tag (fmt @ x # regex_replace r fmt xs)" by simp
        with fmt have "has_tag (x # regex_replace r fmt xs)"
          by (simp add: has_tag_append has_tag_no_lt)
        with copy Cons show ?thesis by simp
      qed
    qed
  qed
qed

text \<open>The replacement of the tags leaves no tag.\<close>

lemma strip_tags_no_tag: "\<not> has_tag (regex_replace tag_expr [] s)"
proof (induction s rule: length_induct)
  case (1 s)
  show ?case
  proof (cases s)
    case Nil
    then show ?thesis by (simp add: rmatch_tag)
  next
    case (Cons x xs)
    show ?thesis
    proof (cases "x = CHR ''<'' \<and> CHR ''>'' \<in> set xs")
      case True
      let ?rest = "tl (dropWhile (\<lambda>c. c \<noteq> CHR ''>'') xs)"
      have "length (dropWhile (\<lambda>c. c \<noteq> CHR ''>'') xs) \<le> length xs"
        by (rule length_dropWhile_le)
      then have len: "length ?rest \<le> length xs"
        by simp
      with True Cons have "regex_replace tag_expr [] s = regex_replace tag_expr [] ?rest"
        by (simp add: rmatch_tag)
      moreover from len 1 Cons have "\<not> has_tag (regex_replace tag_expr [] ?rest)"
        by simp
      ultimately show ?thesis by simp
    next
      case False
      then have "rmatch tag_expr (x # xs) = None"
        by (auto simp: rmatch_tag)
      with Cons have eq: "regex_replace tag_expr [] s = x # regex_replace tag_expr [] xs"
        by simp
      from 1 Cons have "\<not> has_tag (regex_replace tag_expr [] xs)" by simp
      moreover have "\<not> (x = CHR ''<'' \<and> CHR ''>'' \<in> set (regex_replace tag_expr [] xs))"
        using False regex_replace_set [of tag_expr "[]" xs] by auto
      ultimately show ?thesis using eq by simp
    qed
  qed
qed

lemma cleaned_no_tag: "\<not> has_tag (cleaned m1)"
  unfolding cleaned_def
  using regex_replace_no_new_tag [of "[CHR 0x22]" quot_expr
      "regex_replace tag_expr [] (regex_replace br_expr [] m1)"]
    strip_tags_no_tag [of "regex_replace br_expr [] m1"]
  by auto

lemma clean_lyrics_cleaned:
  "clean_lyrics m1 =
     (if cleaned m1 = [] then None
      else if last (cleaned m1) \<noteq> CHR 0x0A then Some (cleaned m1 @ [CHR 0x0A])
      else Some (cleaned m1))"
  by (simp add: clean_lyrics_def cleaned_def Let_def)

lemma take_prefix: "take (length p) s = p \<longleftrightarrow> prefix p s"
  by (metis prefix_def take_is_prefix append_eq_conv_conj)

lemma rmatch_lit_prefix:
  "rmatch (lit p) s = (if prefix p s then Some ([], drop (length p) s) else None)"
  by (simp only: rmatch_lit take_prefix)

lemma search_lit: "regex_search (lit p) s = None \<longleftrightarrow> \<not> sublist p s"
proof (induction s)
  case Nil
  then show ?case by (simp add: rmatch_lit_prefix)
next
  case (Cons x xs)
  then show ?case
    by (simp add: rmatch_lit_prefix sublist_Cons_right)
qed

text \<open>
  A prefix of the text after the replacement of \<open>&quot;\<close> that has no double quote was a
  prefix before.
\<close>

lemma replace_quot_step:
  "regex_replace quot_expr [CHR 0x22] (y # ys) =
     (if prefix ''&quot;'' (y # ys)
      then CHR 0x22 # regex_replace quot_expr [CHR 0x22] (drop 5 ys)
      else y # regex_replace quot_expr [CHR 0x22] ys)"
  by (simp add: quot_expr_def rmatch_lit_prefix eval_nat_numeral)

lemma replace_quot_prefix:
  "CHR 0x22 \<notin> set w \<Longrightarrow> prefix w (regex_replace quot_expr [CHR 0x22] s) \<Longrightarrow> prefix w s"
proof (induction w arbitrary: s)
  case Nil
  then show ?case by simp
next
  case (Cons c w)
  show ?case
  proof (cases s)
    case Nil
    with Cons.prems show ?thesis by (simp add: quot_expr_def rmatch_lit_prefix)
  next
    case s: (Cons y ys)
    show ?thesis
    proof (cases "prefix ''&quot;'' (y # ys)")
      case True
      with Cons.prems s show ?thesis by (simp only: replace_quot_step if_True) simp
    next
      case False
      with Cons.prems s have "prefix (c # w) (y # regex_replace quot_expr [CHR 0x22] ys)"
        by (simp only: replace_quot_step if_False)
      with Cons s show ?thesis by simp
    qed
  qed
qed

lemma replace_quot_no_quot: "\<not> sublist ''&quot;'' (regex_replace quot_expr [CHR 0x22] s)"
proof (induction s rule: length_induct)
  case (1 s)
  show ?case
  proof (cases s)
    case Nil
    then show ?thesis by (simp add: quot_expr_def rmatch_lit_prefix)
  next
    case s: (Cons y ys)
    show ?thesis
    proof (cases "prefix ''&quot;'' (y # ys)")
      case True
      from s 1 have "\<not> sublist ''&quot;'' (regex_replace quot_expr [CHR 0x22] (drop 5 ys))"
        by simp
      moreover have "\<not> prefix ''&quot;'' (CHR 0x22 # regex_replace quot_expr [CHR 0x22] (drop 5 ys))"
        by simp
      moreover from True s have "regex_replace quot_expr [CHR 0x22] s =
          CHR 0x22 # regex_replace quot_expr [CHR 0x22] (drop 5 ys)"
        by (simp only: replace_quot_step if_True)
      ultimately show ?thesis
        by (simp only: sublist_Cons_right) simp
    next
      case False
      from s 1 have ih: "\<not> sublist ''&quot;'' (regex_replace quot_expr [CHR 0x22] ys)"
        by simp
      have "\<not> prefix ''&quot;'' (y # regex_replace quot_expr [CHR 0x22] ys)"
      proof
        assume "prefix ''&quot;'' (y # regex_replace quot_expr [CHR 0x22] ys)"
        then have "y = CHR ''&''" and "prefix ''quot;'' (regex_replace quot_expr [CHR 0x22] ys)"
          by simp_all
        with replace_quot_prefix [of "''quot;''" ys] have "prefix ''&quot;'' (y # ys)"
          by simp
        with False show False by simp
      qed
      with ih False s show ?thesis
        by (simp only: replace_quot_step if_False sublist_Cons_right) simp
    qed
  qed
qed

lemma cleaned_no_quot: "regex_search quot_expr (cleaned m1) = None"
  using search_lit [of "''&quot;''" "cleaned m1"]
  by (simp only: quot_expr_def) (simp add: cleaned_def replace_quot_no_quot flip: quot_expr_def)

text \<open>A match of an expression that ends with a literal character has that character.\<close>

lemma rmatch_last_lit:
  "r = as @ [Lit c] \<Longrightarrow> rmatch r s = Some m \<Longrightarrow> c \<in> set s"
proof (induction r s arbitrary: as m rule: rmatch.induct)
  case (1 s)
  then show ?case by simp
next
  case (2 c' r)
  then have "rmatch (Lit c' # r) [] = Some m" by simp
  then show ?case by simp
next
  case (4 r)
  then have "rmatch (Dot # r) [] = Some m" by simp
  then show ?case by simp
next
  case (3 c' r x xs)
  then show ?case
    by (cases as; cases m) (auto split: if_splits)
next
  case (5 r x xs)
  then show ?case
    by (cases as; cases m) (auto split: if_splits)
next
  case (6 P r)
  then show ?case
    by (cases as; cases m) auto
next
  case (7 P r x xs)
  then show ?case
    by (cases as; cases m) (auto split: if_splits option.splits)
next
  case (8 P r)
  then show ?case
    by (cases as; cases m) auto
next
  case (9 P r x xs)
  then show ?case
    by (cases as; cases m) (auto split: if_splits option.splits)
next
  case (10 c' r)
  then show ?case
    by (cases as; cases m) auto
next
  case (11 c' r x xs)
  then show ?case
    by (cases as; cases m) (auto split: if_splits option.splits)
next
  case (12 r s)
  then show ?case
    by (cases as; cases m) auto
qed

lemma rmatch_br_tag: "rmatch br_expr s = Some m \<Longrightarrow> has_tag s"
proof -
  assume m: "rmatch br_expr s = Some m"
  then obtain cs where s: "s = CHR ''<'' # cs"
    by (cases s) (auto simp: br_expr_def lit_def split: if_splits)
  with m have "rmatch ([Lit CHR ''b'', Lit CHR ''r'', StarG isspace, Opt CHR ''/'', StarG isspace]
      @ [Lit CHR ''>'']) cs = Some m"
    by (simp add: br_expr_def lit_def)
  then have "CHR ''>'' \<in> set cs"
    by (rule rmatch_last_lit [OF refl])
  with s show ?thesis by simp
qed

lemma search_br_tag: "regex_search br_expr s = Some m \<Longrightarrow> has_tag s"
  by (induction s) (auto split: option.splits dest: rmatch_br_tag)

lemma cleaned_no_br: "regex_search br_expr (cleaned m1) = None"
  using search_br_tag [of "cleaned m1"] cleaned_no_tag [of m1]
  by (cases "regex_search br_expr (cleaned m1)") auto

text \<open>A match has one mark for each \<open>Mark\<close> of the expression.\<close>

lemma rmatch_marks:
  "rmatch r s = Some (ms, rest) \<Longrightarrow> length ms = length (filter (\<lambda>a. a = Mark) r)"
  by (induction r s arbitrary: ms rest rule: rmatch.induct)
     (auto split: if_splits option.splits)

lemma search_marks:
  "regex_search r s = Some (ms, rest) \<Longrightarrow> length ms = length (filter (\<lambda>a. a = Mark) r)"
  by (induction s) (auto split: option.splits dest: rmatch_marks)

lemma lyrics_expr_match_size:
  "regex_search lyrics_expr doc = Some m \<Longrightarrow> match_size (Some m) = 2"
proof -
  assume m: "regex_search lyrics_expr doc = Some m"
  obtain ms rest where "m = (ms, rest)" by (cases m)
  with m search_marks [of lyrics_expr doc ms rest] have "length ms = 2"
    by (simp add: lyrics_expr_def lit_def)
  with \<open>m = (ms, rest)\<close> show ?thesis
    by (simp add: match_size_def)
qed

lemma extract_lyrics_found:
  "regex_search lyrics_expr doc = Some m \<Longrightarrow>
   extract_lyrics doc = clean_lyrics (sub_match1 (Some m))"
  by (simp add: extract_lyrics_def lyrics_expr_match_size)

lemma has_tag_newline: "has_tag (s @ [CHR 0x0A]) \<longleftrightarrow> has_tag s"
  by (simp add: has_tag_append)

lemma clean_lyrics_Some:
  assumes "clean_lyrics m1 = Some t"
  shows "t \<noteq> [] \<and> last t = CHR 0x0A \<and> \<not> has_tag t \<and> regex_search tag_expr t = None
    \<and> (if last (cleaned m1) = CHR 0x0A then t = cleaned m1 else t = cleaned m1 @ [CHR 0x0A])"
proof -
  from assms have ne: "cleaned m1 \<noteq> []"
    and t: "t = (if last (cleaned m1) = CHR 0x0A then cleaned m1 else cleaned m1 @ [CHR 0x0A])"
    by (auto simp: clean_lyrics_cleaned split: if_splits)
  from t cleaned_no_tag [of m1] have "\<not> has_tag t"
    by (simp add: has_tag_newline)
  with ne t show ?thesis
    by (simp add: search_tag)
qed

lemma lyrics_page_lyrics:
  "extract_lyrics lyrics_page =
     Some (''Line oneLine two '' @ CHR 0x22 # ''quoted'' @ [CHR 0x22, CHR 0x0A])"
  by (simp add: extract_lyrics_def clean_lyrics_def lyrics_expr_def br_expr_def tag_expr_def
        quot_expr_def lyrics_page_def lit_def isspace_def line_terminator_def match_size_def
        sub_match1_def)

text \<open>
  C5, as the code has it. The cleaned text is the lyrics region after the replacement of
  the line-break tags by nothing, then of every tag by nothing, then of \<open>&quot;\<close> by a
  double quote; none of the three expressions matches anywhere in it. When it is empty
  the result is the empty option. Otherwise the result is the cleaned text, followed by
  a newline if it does not end with one already: it is not empty, ends with a newline
  and has no tag. A document in which the search for the lyrics region fails gives the
  empty option; one in which it succeeds gives the cleaning of the region.
\<close>

theorem cleaning_ends_with_newline:
  "cleaned m1 =
     regex_replace quot_expr [CHR 0x22]
       (regex_replace tag_expr [] (regex_replace br_expr [] m1))
   \<and> regex_search br_expr (cleaned m1) = None
   \<and> regex_search tag_expr (cleaned m1) = None
   \<and> regex_search quot_expr (cleaned m1) = None
   \<and> (clean_lyrics m1 = None \<longleftrightarrow> cleaned m1 = [])
   \<and> (\<forall>t. clean_lyrics m1 = Some t \<longrightarrow>
        t \<noteq> [] \<and> last t = CHR 0x0A \<and> \<not> has_tag t
        \<and> (if last (cleaned m1) = CHR 0x0A then t = cleaned m1 else t = cleaned m1 @ [CHR 0x0A]))
   \<and> (\<forall>t. extract_lyrics doc = Some t \<longrightarrow> t \<noteq> [] \<and> last t = CHR 0x0A \<and> \<not> has_tag t)
   \<and> (regex_search lyrics_expr doc = None \<longrightarrow> extract_lyrics doc = None)
   \<and> (\<forall>m. regex_search lyrics_expr doc = Some m \<longrightarrow>
        extract_lyrics doc = clean_lyrics (sub_match1 (Some m)))"
proof (intro conjI allI impI)
  show "cleaned m1 =
      regex_replace quot_expr [CHR 0x22] (regex_replace tag_expr [] (regex_replace br_expr [] m1))"
    by (simp add: cleaned_def)
  show "regex_search br_expr (cleaned m1) = None"
    by (rule cleaned_no_br)
  show "regex_search tag_expr (cleaned m1) = None"
    by (simp add: search_tag cleaned_no_tag)
  show "regex_search quot_expr (cleaned m1) = None"
    by (rule cleaned_no_quot)
  show "clean_lyrics m1 = None \<longleftrightarrow> cleaned m1 = []"
    by (simp add: clean_lyrics_cleaned)
  show "extract_lyrics doc = None" if "regex_search lyrics_expr doc = None"
    using that by (simp add: extract_lyrics_def match_size_def)
  show "extract_lyrics doc = clean_lyrics (sub_match1 (Some m))"
    if "regex_search lyrics_expr doc = Some m" for m
    using that by (rule extract_lyrics_found)
next
  fix t
  assume "clean_lyrics m1 = Some t"
  from clean_lyrics_Some [OF this]
  show "t \<noteq> []" "last t = CHR 0x0A" "\<not> has_tag t"
    "if last (cleaned m1) = CHR 0x0A then t = cleaned m1 else t = cleaned m1 @ [CHR 0x0A]"
    by simp_all
next
  fix t
  assume "extract_lyrics doc = Some t"
  then have "clean_lyrics (sub_match1 (regex_search lyrics_expr doc)) = Some t"
    by (simp add: extract_lyrics_def Let_def split: if_splits)
  from clean_lyrics_Some [OF this]
  show "t \<noteq> []" "last t = CHR 0x0A" "\<not> has_tag t"
    by simp_all
qed

text \<open>
  The page of the scenario: the lyrics are the two lines, joined, with the quotes, and one
  newline; the white space before and after the lyrics region is not part of it.
\<close>

theorem cleaning_ends_with_newline_witness:
  "extract_lyrics lyrics_page =
     Some (''Line oneLine two '' @ CHR 0x22 # ''quoted'' @ [CHR 0x22, CHR 0x0A])
   \<and> last (''Line oneLine two '' @ CHR 0x22 # ''quoted'' @ [CHR 0x22, CHR 0x0A]) = CHR 0x0A
   \<and> \<not> has_tag (''Line oneLine two '' @ CHR 0x22 # ''quoted'' @ [CHR 0x22, CHR 0x0A])
   \<and> clean_lyrics ''<br><i></i>'' = None
   \<and> clean_lyrics ''one<br />two'' = Some (''onetwo'' @ [CHR 0x0A])
   \<and> extract_lyrics ''<div>no lyrics</div>'' = None"
proof -
  let ?l = "''Line oneLine two '' @ CHR 0x22 # ''quoted'' @ [CHR 0x22, CHR 0x0A]"
  have c: "cleaned ''one<br />two'' = ''onetwo''"
    by (simp add: cleaned_def br_expr_def tag_expr_def quot_expr_def lit_def isspace_def)
  with cleaning_ends_with_newline [of "''one<br />two''" "[]"]
  have "clean_lyrics ''one<br />two'' \<noteq> None"
    by simp
  then obtain t where t: "clean_lyrics ''one<br />two'' = Some t"
    by blast
  with cleaning_ends_with_newline [of "''one<br />two''" "[]"] c
  have "t = ''onetwo'' @ [CHR 0x0A]"
    by simp
  with t have two: "clean_lyrics ''one<br />two'' = Some (''onetwo'' @ [CHR 0x0A])"
    by simp
  have "cleaned ''<br><i></i>'' = []"
    by (simp add: cleaned_def br_expr_def tag_expr_def quot_expr_def lit_def isspace_def)
  then have a: "clean_lyrics ''<br><i></i>'' = None"
    using cleaning_ends_with_newline [of "''<br><i></i>''" "[]"] by simp
  have "regex_search lyrics_expr ''<div>no lyrics</div>'' = None"
    by (simp add: lyrics_expr_def lit_def isspace_def line_terminator_def)
  then have b: "extract_lyrics ''<div>no lyrics</div>'' = None"
    using cleaning_ends_with_newline [of "[]" "''<div>no lyrics</div>''"] by blast
  from cleaning_ends_with_newline [of "[]" lyrics_page] lyrics_page_lyrics
  have "last ?l = CHR 0x0A \<and> \<not> has_tag ?l"
    by blast
  with a b two lyrics_page_lyrics show ?thesis
    by blast
qed

text \<open>
  Against the claim. The fragment of the specification, taken literally, has no lyrics
  region (its comment does not start with the marker text), so the provider returns the
  empty option; the three replacements on the whole fragment leave the space after the
  comment as well as the one before the closing tag. With the marker at the start of
  the comment the lyrics have no space before the newline. And a region that ends with
  an empty line and a line break gives a text that ends with two newlines.
\<close>

theorem cleaning_counterexample:
  "extract_lyrics spec_fragment = None
   \<and> clean_lyrics spec_fragment =
       Some ('' Line oneLine two '' @ CHR 0x22 # ''quoted'' @ [CHR 0x22, CHR '' '', CHR 0x0A])
   \<and> extract_lyrics lyrics_page =
       Some (''Line oneLine two '' @ CHR 0x22 # ''quoted'' @ [CHR 0x22, CHR 0x0A])
   \<and> extract_lyrics
       (''<div><!-- Usage of azlyrics.com content -->la'' @ [CHR 0x0A, CHR 0x0A] @ ''<br></div>'')
     = Some (''la'' @ [CHR 0x0A, CHR 0x0A])"
  by (simp add: extract_lyrics_def clean_lyrics_def lyrics_expr_def br_expr_def tag_expr_def
        quot_expr_def lyrics_page_def spec_fragment_def lit_def isspace_def line_terminator_def
        match_size_def sub_match1_def)

subsection \<open>The orchestrator\<close>

lemma metadata_None:
  "track ''unsynced lyrics'' = None \<Longrightarrow> track ''UNSYNCEDLYRICS'' = None \<Longrightarrow>
   track ''lyrics'' = None \<Longrightarrow>
   get_lyrics_from_metadata e track =
     ([FindMeta ''unsynced lyrics'', FindMeta ''UNSYNCEDLYRICS'', FindMeta ''lyrics''], None)"
  by (simp add: get_lyrics_from_metadata_def)

text \<open>
  C9. For a track with no embedded lyrics whose artist or title is absent,
  \<open>update_lyrics\<close> makes the five metadata lookups, publishes "Lyrics not found" and
  returns: no file is read or opened, no provider is called, the cache is unchanged.
\<close>

theorem missing_identity_not_found:
  "track ''unsynced lyrics'' = None \<and> track ''UNSYNCEDLYRICS'' = None \<and> track ''lyrics'' = None \<and>
   (track ''artist'' = None \<or> track ''title'' = None) \<longrightarrow>
   update_lyrics e track fs =
     ([FindMeta ''unsynced lyrics'', FindMeta ''UNSYNCEDLYRICS'', FindMeta ''lyrics'',
       FindMeta ''artist'', FindMeta ''title'', SetLyrics (Message ''Lyrics not found'')],
      fs, Ret ())"
  by (cases "track ''artist''"; cases "track ''title''")
     (simp_all add: update_lyrics_def metadata_None)

theorem missing_identity_not_found_witness:
  "update_lyrics (script_env not_found ''la'' 0) (untitled ''A'') (\<lambda>f. Some ''cached'') =
     ([FindMeta ''unsynced lyrics'', FindMeta ''UNSYNCEDLYRICS'', FindMeta ''lyrics'',
       FindMeta ''artist'', FindMeta ''title'', SetLyrics (Message ''Lyrics not found'')],
      (\<lambda>f. Some ''cached''), Ret ())"
  using missing_identity_not_found [of "untitled ''A''" "script_env not_found ''la'' 0" "\<lambda>f. Some ''cached''"]
  by (simp add: untitled_def)



lemma try_providers_script:
  "get_lyrics_from_script e track = (evs, Ret (Some l)) \<Longrightarrow>
   try_providers providers e track fs a t =
     (evs @ [SetLyrics (Lyrics l), OfstreamOpen (cached_filename (lyrics_dir e) a t)],
      (if ofstream_opens e (cached_filename (lyrics_dir e) a t)
       then fs(cached_filename (lyrics_dir e) a t \<mapsto> raw e l) else fs),
      Ret True)"
  by (simp add: providers_def save_cached_lyrics_def Let_def)

lemma try_providers_web:
  "get_lyrics_from_script e track = (evs, Ret None) \<Longrightarrow>
   download_lyrics_from_azlyrics e track = (evd, Ret (Some l)) \<Longrightarrow>
   try_providers providers e track fs a t =
     (evs @ evd @ [SetLyrics (Lyrics l), OfstreamOpen (cached_filename (lyrics_dir e) a t)],
      (if ofstream_opens e (cached_filename (lyrics_dir e) a t)
       then fs(cached_filename (lyrics_dir e) a t \<mapsto> raw e l) else fs),
      Ret True)"
  by (simp add: providers_def save_cached_lyrics_def Let_def)


lemma try_providers_raise:
  "get_lyrics_from_script e track = (evs, Ret None) \<Longrightarrow>
   download_lyrics_from_azlyrics e track = (evd, Throw) \<Longrightarrow>
   try_providers providers e track fs a t = (evs @ evd, fs, Throw)"
  "get_lyrics_from_script e track = (evs, Ret None) \<Longrightarrow>
   download_lyrics_from_azlyrics e track = (evd, Abort) \<Longrightarrow>
   try_providers providers e track fs a t = (evs @ evd, fs, Abort)"
  by (simp_all add: providers_def)

text \<open>
  \<open>update_lyrics\<close> on a track with an artist and a title, no embedded lyrics and no cache
  file: the calls up to the providers, then the loop over the providers.
\<close>

lemma update_lyrics_uncached:
  assumes "track ''unsynced lyrics'' = None" "track ''UNSYNCEDLYRICS'' = None"
    "track ''lyrics'' = None" "track ''artist'' = Some a" "track ''title'' = Some t"
    "fs (cached_filename (lyrics_dir e) a t) = None"
    "try_providers providers e track fs a t = (ev, fs', r)"
  shows "update_lyrics e track fs =
    ([FindMeta ''unsynced lyrics'', FindMeta ''UNSYNCEDLYRICS'', FindMeta ''lyrics'',
      FindMeta ''artist'', FindMeta ''title'',
      FileGetContents (cached_filename (lyrics_dir e) a t),
      SetLyrics (Message ''Loading...'')] @ ev @
     (if r = Ret False then [SetLyrics (Message ''Lyrics not found'')] else []),
     fs',
     (case r of Ret b \<Rightarrow> Ret () | Throw \<Rightarrow> Throw | Abort \<Rightarrow> Abort))"
  using assms
  by (cases r) (simp_all add: update_lyrics_def metadata_None load_cached_lyrics_def Let_def)

text \<open>
  C3. For a track with an artist and a title, no embedded lyrics and no cache file: when
  the script provider gives lyrics, \<open>update_lyrics\<close> calls nothing of the web provider,
  publishes the lyrics of the script and opens the cache file for them; when the script
  provider gives nothing and the web provider gives lyrics, the calls of the script come
  first, those of the web provider next, and these lyrics are published and saved. The
  file holds the lyrics afterwards if it could be opened.
\<close>

theorem script_wins_over_scrape:
  "track ''unsynced lyrics'' = None \<and> track ''UNSYNCEDLYRICS'' = None \<and> track ''lyrics'' = None \<and>
   track ''artist'' = Some a \<and> track ''title'' = Some t \<and>
   fs (cached_filename (lyrics_dir e) a t) = None \<longrightarrow>
   (get_lyrics_from_script e track = (evs, Ret (Some l)) \<longrightarrow>
      (\<forall>u. HttpGet u \<notin> set evs) \<and>
      update_lyrics e track fs =
        ([FindMeta ''unsynced lyrics'', FindMeta ''UNSYNCEDLYRICS'', FindMeta ''lyrics'',
          FindMeta ''artist'', FindMeta ''title'',
          FileGetContents (cached_filename (lyrics_dir e) a t),
          SetLyrics (Message ''Loading...'')] @ evs @
         [SetLyrics (Lyrics l), OfstreamOpen (cached_filename (lyrics_dir e) a t)],
         (if ofstream_opens e (cached_filename (lyrics_dir e) a t)
          then fs(cached_filename (lyrics_dir e) a t \<mapsto> raw e l) else fs),
         Ret ()))
   \<and> (get_lyrics_from_script e track = (evs, Ret None) \<and>
      download_lyrics_from_azlyrics e track = (evd, Ret (Some l)) \<longrightarrow>
      update_lyrics e track fs =
        ([FindMeta ''unsynced lyrics'', FindMeta ''UNSYNCEDLYRICS'', FindMeta ''lyrics'',
          FindMeta ''artist'', FindMeta ''title'',
          FileGetContents (cached_filename (lyrics_dir e) a t),
          SetLyrics (Message ''Loading...'')] @ evs @ evd @
         [SetLyrics (Lyrics l), OfstreamOpen (cached_filename (lyrics_dir e) a t)],
         (if ofstream_opens e (cached_filename (lyrics_dir e) a t)
          then fs(cached_filename (lyrics_dir e) a t \<mapsto> raw e l) else fs),
         Ret ()))"
proof (intro impI conjI)
  assume h: "track ''unsynced lyrics'' = None \<and> track ''UNSYNCEDLYRICS'' = None \<and>
    track ''lyrics'' = None \<and> track ''artist'' = Some a \<and> track ''title'' = Some t \<and>
    fs (cached_filename (lyrics_dir e) a t) = None"
  {
    assume s: "get_lyrics_from_script e track = (evs, Ret (Some l))"
    from s script_no_fetch [of _ e track] show "\<forall>u. HttpGet u \<notin> set evs"
      by simp
    from h update_lyrics_uncached [OF _ _ _ _ _ _ try_providers_script [OF s], of a t fs]
    show "update_lyrics e track fs =
        ([FindMeta ''unsynced lyrics'', FindMeta ''UNSYNCEDLYRICS'', FindMeta ''lyrics'',
          FindMeta ''artist'', FindMeta ''title'',
          FileGetContents (cached_filename (lyrics_dir e) a t),
          SetLyrics (Message ''Loading...'')] @ evs @
         [SetLyrics (Lyrics l), OfstreamOpen (cached_filename (lyrics_dir e) a t)],
         (if ofstream_opens e (cached_filename (lyrics_dir e) a t)
          then fs(cached_filename (lyrics_dir e) a t \<mapsto> raw e l) else fs),
         Ret ())"
      by simp
  }
  {
    assume "get_lyrics_from_script e track = (evs, Ret None) \<and>
      download_lyrics_from_azlyrics e track = (evd, Ret (Some l))"
    then have s: "get_lyrics_from_script e track = (evs, Ret None)"
      and d: "download_lyrics_from_azlyrics e track = (evd, Ret (Some l))"
      by simp_all
    from h update_lyrics_uncached [OF _ _ _ _ _ _ try_providers_web [OF s d], of a t fs]
    show "update_lyrics e track fs =
        ([FindMeta ''unsynced lyrics'', FindMeta ''UNSYNCEDLYRICS'', FindMeta ''lyrics'',
          FindMeta ''artist'', FindMeta ''title'',
          FileGetContents (cached_filename (lyrics_dir e) a t),
          SetLyrics (Message ''Loading...'')] @ evs @ evd @
         [SetLyrics (Lyrics l), OfstreamOpen (cached_filename (lyrics_dir e) a t)],
         (if ofstream_opens e (cached_filename (lyrics_dir e) a t)
          then fs(cached_filename (lyrics_dir e) a t \<mapsto> raw e l) else fs),
         Ret ())"
      by simp
  }
qed

lemma script_env_lyrics:
  "get_lyrics_from_script (script_env send ''la'' 0) track =
     ([ConfGetStr ''lyricbar.customcmd'', TfCompile ''getlyrics'', TfEval ''getlyrics'',
       SpawnSync ''getlyrics''],
      Ret (Some (ascii_ustring_of ''la'')))"
  by (simp add: get_lyrics_from_script_def script_env_def ascii_env_def resize_def Let_def)

lemma ascii_env_no_script:
  "get_lyrics_from_script (ascii_env send) track = ([ConfGetStr ''lyricbar.customcmd''], Ret None)"
  by (simp add: get_lyrics_from_script_def ascii_env_def)

text \<open>
  The end-to-end scenario: artist "Test/Artist", title "Song", on a server that has the
  page of that song. The web provider makes one fetch and returns the lyrics of the page,
  whether a script is configured or not.
\<close>

lemma scenario_download:
  assumes e: "lowercase e = ascii_lowercase" "ustring_of e = ascii_ustring_of"
    "g_unichar_isalpha e = ascii_isalpha" "g_unichar_isdigit e = ascii_isdigit"
    "raw e = ascii_raw" "uri_escape_string e = (\<lambda>s. s)"
    "soup_session_send e = one_page ''https://www.azlyrics.com/lyrics/testartist/song.html'' lyrics_page"
  shows "download_lyrics_from_azlyrics e (track_of ''Test/Artist'' ''Song'') =
    ([FindMeta ''artist'', FindMeta ''title'',
      HttpGet ''https://www.azlyrics.com/lyrics/testartist/song.html''],
     Ret (Some (ascii_ustring_of
       (''Line oneLine two '' @ CHR 0x22 # ''quoted'' @ [CHR 0x22, CHR 0x0A]))))"
proof -
  let ?a = "ascii_ustring_of ''testartist''"
  have low: "ascii_lowercase (ascii_ustring_of ''Song'') = ascii_ustring_of ''song''"
      "alphadigitize ascii_isalpha ascii_isdigit (ascii_lowercase (ascii_ustring_of ''Test/Artist'')) = ?a"
      "alphadigitize ascii_isalpha ascii_isdigit (ascii_ustring_of ''song'') = ascii_ustring_of ''song''"
    by (simp_all add: alphadigitize_filter ascii_isalpha_def ascii_isdigit_def
          ascii_lowercase_def ascii_ustring_of_def)
  have url: "api_url e ?a (ascii_ustring_of ''song'')
        = ''https://www.azlyrics.com/lyrics/testartist/song.html''"
    by (simp add: api_url_def e low ascii_raw_ustring_of AZL_FMT_def digit_value_def)
  have "fetch e ''https://www.azlyrics.com/lyrics/testartist/song.html'' = Ret (Some lyrics_page)"
    by (simp add: fetch_file_as_chrome_def e one_page_def MAX_FILE_SIZE_def lyrics_page_def)
  with url have "retry_loop e ?a (ascii_ustring_of ''song'') =
      ([HttpGet ''https://www.azlyrics.com/lyrics/testartist/song.html''], Ret (Some lyrics_page))"
    by (simp add: retry_loop_success)
  then show ?thesis
    unfolding download_lyrics_from_azlyrics_def
    by (simp add: track_of_def e low lyrics_page_lyrics del: append.simps)
qed

theorem script_wins_over_scrape_witness:
  "update_lyrics
     (script_env (one_page ''https://www.azlyrics.com/lyrics/testartist/song.html'' lyrics_page) ''la'' 0)
     (track_of ''Test/Artist'' ''Song'') Map.empty =
     ([FindMeta ''unsynced lyrics'', FindMeta ''UNSYNCEDLYRICS'', FindMeta ''lyrics'',
       FindMeta ''artist'', FindMeta ''title'', FileGetContents ''/cache/Test_Artist-Song'',
       SetLyrics (Message ''Loading...''),
       ConfGetStr ''lyricbar.customcmd'', TfCompile ''getlyrics'', TfEval ''getlyrics'',
       SpawnSync ''getlyrics'',
       SetLyrics (Lyrics (ascii_ustring_of ''la'')), OfstreamOpen ''/cache/Test_Artist-Song''],
      [''/cache/Test_Artist-Song'' \<mapsto> ''la''], Ret ())
   \<and> snd (download_lyrics_from_azlyrics
     (script_env (one_page ''https://www.azlyrics.com/lyrics/testartist/song.html'' lyrics_page) ''la'' 0)
     (track_of ''Test/Artist'' ''Song'')) =
     Ret (Some (ascii_ustring_of
       (''Line oneLine two '' @ CHR 0x22 # ''quoted'' @ [CHR 0x22, CHR 0x0A])))
   \<and> update_lyrics
     (ascii_env (one_page ''https://www.azlyrics.com/lyrics/testartist/song.html'' lyrics_page))
     (track_of ''Test/Artist'' ''Song'') Map.empty =
     ([FindMeta ''unsynced lyrics'', FindMeta ''UNSYNCEDLYRICS'', FindMeta ''lyrics'',
       FindMeta ''artist'', FindMeta ''title'', FileGetContents ''/cache/Test_Artist-Song'',
       SetLyrics (Message ''Loading...''),
       ConfGetStr ''lyricbar.customcmd'',
       FindMeta ''artist'', FindMeta ''title'',
       HttpGet ''https://www.azlyrics.com/lyrics/testartist/song.html'',
       SetLyrics (Lyrics (ascii_ustring_of
         (''Line oneLine two '' @ CHR 0x22 # ''quoted'' @ [CHR 0x22, CHR 0x0A]))),
       OfstreamOpen ''/cache/Test_Artist-Song''],
      [''/cache/Test_Artist-Song'' \<mapsto>
         ''Line oneLine two '' @ CHR 0x22 # ''quoted'' @ [CHR 0x22, CHR 0x0A]], Ret ())"
proof -
  let ?send = "one_page ''https://www.azlyrics.com/lyrics/testartist/song.html'' lyrics_page"
  let ?tr = "track_of ''Test/Artist'' ''Song''"
  let ?l = "''Line oneLine two '' @ CHR 0x22 # ''quoted'' @ [CHR 0x22, CHR 0x0A]"
  have tr: "?tr ''unsynced lyrics'' = None \<and> ?tr ''UNSYNCEDLYRICS'' = None \<and> ?tr ''lyrics'' = None \<and>
      ?tr ''artist'' = Some ''Test/Artist'' \<and> ?tr ''title'' = Some ''Song''"
    by (simp add: track_of_def)
  have fn: "cached_filename ''/cache/'' ''Test/Artist'' ''Song'' = ''/cache/Test_Artist-Song''"
    by (simp add: cached_filename_def replace_char_def)
  have d1: "download_lyrics_from_azlyrics (script_env ?send ''la'' 0) ?tr =
      ([FindMeta ''artist'', FindMeta ''title'',
        HttpGet ''https://www.azlyrics.com/lyrics/testartist/song.html''],
       Ret (Some (ascii_ustring_of ?l)))"
    by (rule scenario_download) (simp_all add: script_env_def ascii_env_def)
  have d2: "download_lyrics_from_azlyrics (ascii_env ?send) ?tr =
      ([FindMeta ''artist'', FindMeta ''title'',
        HttpGet ''https://www.azlyrics.com/lyrics/testartist/song.html''],
       Ret (Some (ascii_ustring_of ?l)))"
    by (rule scenario_download) (simp_all add: ascii_env_def)
  have sel1: "lyrics_dir (script_env ?send ''la'' 0) = ''/cache/''"
      "ofstream_opens (script_env ?send ''la'' 0) = (\<lambda>f. True)"
      "raw (script_env ?send ''la'' 0) = ascii_raw"
    by (simp_all add: script_env_def ascii_env_def)
  have sel2: "lyrics_dir (ascii_env ?send) = ''/cache/''"
      "ofstream_opens (ascii_env ?send) = (\<lambda>f. True)"
      "raw (ascii_env ?send) = ascii_raw"
    by (simp_all add: ascii_env_def)
  from script_wins_over_scrape [where track = ?tr and a = "''Test/Artist''" and t = "''Song''"
      and fs = Map.empty and e = "script_env ?send ''la'' 0" and l = "ascii_ustring_of ''la''",
      THEN mp, THEN conjunct1, THEN mp, THEN conjunct2]
    tr script_env_lyrics [of ?send ?tr]
  have u1: "update_lyrics (script_env ?send ''la'' 0) ?tr Map.empty =
     ([FindMeta ''unsynced lyrics'', FindMeta ''UNSYNCEDLYRICS'', FindMeta ''lyrics'',
       FindMeta ''artist'', FindMeta ''title'', FileGetContents ''/cache/Test_Artist-Song'',
       SetLyrics (Message ''Loading...''),
       ConfGetStr ''lyricbar.customcmd'', TfCompile ''getlyrics'', TfEval ''getlyrics'',
       SpawnSync ''getlyrics'',
       SetLyrics (Lyrics (ascii_ustring_of ''la'')), OfstreamOpen ''/cache/Test_Artist-Song''],
      [''/cache/Test_Artist-Song'' \<mapsto> ''la''], Ret ())"
    by (simp add: sel1 fn ascii_raw_ustring_of)
  from script_wins_over_scrape [where track = ?tr and a = "''Test/Artist''" and t = "''Song''"
      and fs = Map.empty and e = "ascii_env ?send" and l = "ascii_ustring_of ?l",
      THEN mp, THEN conjunct2, THEN mp]
    tr ascii_env_no_script [of ?send ?tr] d2
  have u2: "update_lyrics (ascii_env ?send) ?tr Map.empty =
     ([FindMeta ''unsynced lyrics'', FindMeta ''UNSYNCEDLYRICS'', FindMeta ''lyrics'',
       FindMeta ''artist'', FindMeta ''title'', FileGetContents ''/cache/Test_Artist-Song'',
       SetLyrics (Message ''Loading...''),
       ConfGetStr ''lyricbar.customcmd'',
       FindMeta ''artist'', FindMeta ''title'',
       HttpGet ''https://www.azlyrics.com/lyrics/testartist/song.html'',
       SetLyrics (Lyrics (ascii_ustring_of ?l)),
       OfstreamOpen ''/cache/Test_Artist-Song''],
      [''/cache/Test_Artist-Song'' \<mapsto> ?l], Ret ())"
    by (simp add: sel2 fn ascii_raw_ustring_of del: append.simps)
  from u1 u2 d1 show ?thesis by (simp del: append.simps)
qed










text \<open>
  A server whose connection breaks while the body is read, and no script: the web
  provider is reached and its fetch ends in the failed assertion.
\<close>

lemma update_lyrics_broken_body:
  "update_lyrics (ascii_env broken_body) (track_of ''Artist'' ''Song'') Map.empty =
     ([FindMeta ''unsynced lyrics'', FindMeta ''UNSYNCEDLYRICS'', FindMeta ''lyrics'',
       FindMeta ''artist'', FindMeta ''title'', FileGetContents ''/cache/Artist-Song'',
       SetLyrics (Message ''Loading...''),
       ConfGetStr ''lyricbar.customcmd'',
       FindMeta ''artist'', FindMeta ''title'',
       HttpGet ''https://www.azlyrics.com/lyrics/artist/song.html''],
      Map.empty, Abort)"
proof -
  let ?e = "ascii_env broken_body"
  let ?tr = "track_of ''Artist'' ''Song''"
  let ?a = "ascii_ustring_of ''artist''"
  have tr: "?tr ''unsynced lyrics'' = None" "?tr ''UNSYNCEDLYRICS'' = None" "?tr ''lyrics'' = None"
      "?tr ''artist'' = Some ''Artist''" "?tr ''title'' = Some ''Song''"
    by (simp_all add: track_of_def)
  have sel: "lowercase ?e = ascii_lowercase" "ustring_of ?e = ascii_ustring_of"
      "g_unichar_isalpha ?e = ascii_isalpha" "g_unichar_isdigit ?e = ascii_isdigit"
      "raw ?e = ascii_raw" "uri_escape_string ?e = (\<lambda>s. s)" "lyrics_dir ?e = ''/cache/''"
      "soup_session_send ?e = broken_body" "ndebug ?e = False"
    by (simp_all add: ascii_env_def)
  have fn: "cached_filename ''/cache/'' ''Artist'' ''Song'' = ''/cache/Artist-Song''"
    by (simp add: cached_filename_def replace_char_def)
  have low: "ascii_lowercase (ascii_ustring_of ''Song'') = ascii_ustring_of ''song''"
      "alphadigitize ascii_isalpha ascii_isdigit (ascii_lowercase (ascii_ustring_of ''Artist'')) = ?a"
      "alphadigitize ascii_isalpha ascii_isdigit (ascii_ustring_of ''song'') = ascii_ustring_of ''song''"
    by (simp_all add: alphadigitize_filter ascii_isalpha_def ascii_isdigit_def
          ascii_lowercase_def ascii_ustring_of_def)
  have url: "api_url ?e ?a (ascii_ustring_of ''song'')
        = ''https://www.azlyrics.com/lyrics/artist/song.html''"
    by (simp add: api_url_def sel low ascii_raw_ustring_of AZL_FMT_def digit_value_def)
  have "fetch ?e u = Abort" for u
    by (simp add: sel fetch_file_as_chrome_def broken_body_def MAX_FILE_SIZE_def)
  with url have "retry_loop ?e ?a (ascii_ustring_of ''song'') =
      ([HttpGet ''https://www.azlyrics.com/lyrics/artist/song.html''], Abort)"
    by (simp add: retry_loop_raise)
  then have d: "download_lyrics_from_azlyrics ?e ?tr =
      ([FindMeta ''artist'', FindMeta ''title'',
        HttpGet ''https://www.azlyrics.com/lyrics/artist/song.html''], Abort)"
    unfolding download_lyrics_from_azlyrics_def
    by (simp add: track_of_def sel low)
  have "try_providers providers ?e ?tr Map.empty ''Artist'' ''Song'' =
      ([ConfGetStr ''lyricbar.customcmd''] @
       [FindMeta ''artist'', FindMeta ''title'',
        HttpGet ''https://www.azlyrics.com/lyrics/artist/song.html''], Map.empty, Abort)"
    using ascii_env_no_script [of broken_body ?tr] d by (rule try_providers_raise)
  from update_lyrics_uncached [OF tr _ this] show ?thesis
    by (simp add: sel fn)
qed




end
